theory Spec2Isabelle
  imports Main "HOL-Library.AList"
begin

section \<open>Errors\<close>

text \<open>
  Every exception the code can raise is a value of this type. A \<^verbatim>\<open>try\<close> block is a
  function into \<open>error + 'a\<close>; the matching \<^verbatim>\<open>catch\<close> is the case distinction on it.
\<close>

datatype error =
    StorageError
  | SyntaxError
  | IdError
  | InvalidEventData
  | AdapterError
  | ListenerError
  | DuplicateEvent
  | TypeError

section \<open>The browser: localStorage and document.cookie\<close>

text \<open>
  \<^verbatim>\<open>src/lib/utils/storage.ts\<close>. A stored string is either empty, text that
  \<^verbatim>\<open>JSON.parse\<close> rejects, or the JSON of a \<^verbatim>\<open>StorageItem<T>\<close>. Values are typed
  (the parameter \<open>'v\<close>); \<open>None\<close> stands for \<^verbatim>\<open>null\<close> / \<^verbatim>\<open>undefined\<close>.
  The flags say which browser primitive raises when it is called (storage disabled by a
  privacy mode, quota exceeded, a value \<^verbatim>\<open>JSON.stringify\<close> rejects).
  TTLs are whole hours, as every caller modelled here passes them.
\<close>

record 'v StorageItem =
  item_value :: 'v
  expires_at :: "int option"
  created_at :: int

datatype 'v stored_text = Blank | Garbled | Json "'v StorageItem"

datatype 'v cookie_text = BadCookie | GoodCookie 'v

record 'v cookie =
  cookie_value :: "'v cookie_text"
  cookie_expires :: "int option"

record 'v browser =
  isClient :: bool
  localStorage :: "(string \<times> 'v stored_text) list"
  getItem_throws :: bool
  setItem_throws :: bool
  removeItem_throws :: bool
  has_document :: bool
  cookie_jar :: "(string \<times> 'v cookie) list"
  cookie_get_throws :: bool
  cookie_set_throws :: bool
  warnings :: "error list"

definition console_warn :: "error \<Rightarrow> 'v browser \<Rightarrow> 'v browser" where
  "console_warn e b = b\<lparr>warnings := warnings b @ [e]\<rparr>"

definition localStorage_getItem :: "'v browser \<Rightarrow> string \<Rightarrow> error + 'v stored_text option" where
  "localStorage_getItem b key =
     (if getItem_throws b then Inl StorageError else Inr (map_of (localStorage b) key))"

definition localStorage_setItem :: "'v browser \<Rightarrow> string \<Rightarrow> 'v stored_text \<Rightarrow> error + 'v browser" where
  "localStorage_setItem b key txt =
     (if setItem_throws b then Inl StorageError
      else Inr (b\<lparr>localStorage := AList.update key txt (localStorage b)\<rparr>))"

definition localStorage_removeItem :: "'v browser \<Rightarrow> string \<Rightarrow> error + 'v browser" where
  "localStorage_removeItem b key =
     (if removeItem_throws b then Inl StorageError
      else Inr (b\<lparr>localStorage := AList.delete key (localStorage b)\<rparr>))"

definition JSON_parse :: "'v stored_text \<Rightarrow> error + 'v StorageItem" where
  "JSON_parse txt = (case txt of Json item \<Rightarrow> Inr item | _ \<Rightarrow> Inl SyntaxError)"

subsection \<open>SafeStorage\<close>

definition ttl_expiry :: "int \<Rightarrow> int option \<Rightarrow> int option" where
  \<comment> \<open>\<^verbatim>\<open>ttlHours ? Date.now() + (ttlHours * 60 * 60 * 1000) : undefined\<close>\<close>
  "ttl_expiry now ttlHours =
     (case ttlHours of
        None \<Rightarrow> None
      | Some h \<Rightarrow> if h = 0 then None else Some (now + h * 60 * 60 * 1000))"

definition is_expired :: "'v StorageItem \<Rightarrow> int \<Rightarrow> bool" where
  \<comment> \<open>\<^verbatim>\<open>item.expires_at && Date.now() > item.expires_at\<close>\<close>
  "is_expired item now =
     (case expires_at item of None \<Rightarrow> False | Some t \<Rightarrow> t \<noteq> 0 \<and> now > t)"

definition setItem_try :: "'v browser \<Rightarrow> int \<Rightarrow> string \<Rightarrow> 'v \<Rightarrow> int option \<Rightarrow> error + 'v browser" where
  "setItem_try b now key v ttlHours =
     localStorage_setItem b key
       (Json \<lparr>item_value = v, expires_at = ttl_expiry now ttlHours, created_at = now\<rparr>)"

definition SafeStorage_setItem :: "'v browser \<Rightarrow> int \<Rightarrow> string \<Rightarrow> 'v \<Rightarrow> int option \<Rightarrow> 'v browser" where
  "SafeStorage_setItem b now key v ttlHours =
     (if \<not> isClient b then b
      else case setItem_try b now key v ttlHours of
             Inr b' \<Rightarrow> b'
           | Inl e \<Rightarrow> console_warn e b)"

definition SafeStorage_removeItem :: "'v browser \<Rightarrow> string \<Rightarrow> 'v browser" where
  "SafeStorage_removeItem b key =
     (if \<not> isClient b then b
      else case localStorage_removeItem b key of
             Inr b' \<Rightarrow> b'
           | Inl e \<Rightarrow> console_warn e b)"

definition getItem_try :: "'v browser \<Rightarrow> int \<Rightarrow> string \<Rightarrow> error + ('v browser \<times> 'v option)" where
  "getItem_try b now key =
     (case localStorage_getItem b key of
        Inl e \<Rightarrow> Inl e
      | Inr None \<Rightarrow> Inr (b, None)
      | Inr (Some Blank) \<Rightarrow> Inr (b, None)
      | Inr (Some itemStr) \<Rightarrow>
          (case JSON_parse itemStr of
             Inl e \<Rightarrow> Inl e
           | Inr item \<Rightarrow>
               if is_expired item now then Inr (SafeStorage_removeItem b key, None)
               else Inr (b, Some (item_value item))))"

definition SafeStorage_getItem :: "'v browser \<Rightarrow> int \<Rightarrow> string \<Rightarrow> 'v browser \<times> 'v option" where
  "SafeStorage_getItem b now key =
     (if \<not> isClient b then (b, None)
      else case getItem_try b now key of
             Inr r \<Rightarrow> r
           | Inl e \<Rightarrow> (console_warn e b, None))"

subsection \<open>CrossDomainStorage\<close>

text \<open>
  \<^verbatim>\<open>document.cookie\<close> read gives the cookies that have not expired, written gives the
  jar with that name set, or removed when the expiry lies in the past.
  \<^verbatim>\<open>toUTCString\<close> keeps whole seconds.
\<close>

definition cookie_live :: "int \<Rightarrow> 'v cookie \<Rightarrow> bool" where
  "cookie_live now c = (case cookie_expires c of None \<Rightarrow> True | Some t \<Rightarrow> now < t)"

definition document_cookie :: "'v browser \<Rightarrow> int \<Rightarrow> error + (string \<times> 'v cookie) list" where
  "document_cookie b now =
     (if cookie_get_throws b then Inl StorageError
      else Inr (filter (\<lambda>(k, c). cookie_live now c) (cookie_jar b)))"

definition set_document_cookie :: "'v browser \<Rightarrow> int \<Rightarrow> string \<Rightarrow> 'v cookie \<Rightarrow> error + 'v browser" where
  "set_document_cookie b now key c =
     (if cookie_set_throws b then Inl StorageError
      else if cookie_live now c then Inr (b\<lparr>cookie_jar := AList.update key c (cookie_jar b)\<rparr>)
      else Inr (b\<lparr>cookie_jar := AList.delete key (cookie_jar b)\<rparr>))"

definition cookie_expiry :: "int \<Rightarrow> int option \<Rightarrow> int option" where
  \<comment> \<open>\<^verbatim>\<open>ttlHours ? new Date(Date.now() + ttlHours * 60 * 60 * 1000).toUTCString() : undefined\<close>\<close>
  "cookie_expiry now ttlHours =
     (case ttlHours of
        None \<Rightarrow> None
      | Some h \<Rightarrow> if h = 0 then None else Some ((now + h * 60 * 60 * 1000) div 1000 * 1000))"

definition CrossDomainStorage_setItem ::
  "'v browser \<Rightarrow> int \<Rightarrow> string \<Rightarrow> 'v \<Rightarrow> int option \<Rightarrow> bool \<Rightarrow> 'v browser" where
  "CrossDomainStorage_setItem b now key v ttlHours crossDomain =
     (let b1 = SafeStorage_setItem b now key v ttlHours in
      if crossDomain \<and> has_document b1 then
        (case set_document_cookie b1 now key
                \<lparr>cookie_value = GoodCookie v, cookie_expires = cookie_expiry now ttlHours\<rparr> of
           Inr b2 \<Rightarrow> b2
         | Inl e \<Rightarrow> console_warn e b1)
      else b1)"

definition cookie_read_try :: "'v browser \<Rightarrow> int \<Rightarrow> string \<Rightarrow> error + 'v option" where
  "cookie_read_try b now key =
     (case document_cookie b now of
        Inl e \<Rightarrow> Inl e
      | Inr cookies \<Rightarrow>
          (case map_of cookies key of
             None \<Rightarrow> Inr None
           | Some c \<Rightarrow>
               (case cookie_value c of
                  BadCookie \<Rightarrow> Inl SyntaxError
                | GoodCookie v \<Rightarrow> Inr (Some v))))"

definition CrossDomainStorage_getItem :: "'v browser \<Rightarrow> int \<Rightarrow> string \<Rightarrow> 'v browser \<times> 'v option" where
  "CrossDomainStorage_getItem b now key =
     (case SafeStorage_getItem b now key of
        (b1, Some localValue) \<Rightarrow> (b1, Some localValue)
      | (b1, None) \<Rightarrow>
          if has_document b1 then
            (case cookie_read_try b1 now key of
               Inr (Some v) \<Rightarrow> (b1, Some v)
             | Inr None \<Rightarrow> (b1, None)
             | Inl e \<Rightarrow> (console_warn e b1, None))
          else (b1, None))"

definition CrossDomainStorage_removeItem :: "'v browser \<Rightarrow> int \<Rightarrow> string \<Rightarrow> 'v browser" where
  "CrossDomainStorage_removeItem b now key =
     (let b1 = SafeStorage_removeItem b key in
      if has_document b1 then
        (case set_document_cookie b1 now key \<lparr>cookie_value = BadCookie, cookie_expires = Some 0\<rparr> of
           Inr b2 \<Rightarrow> b2
         | Inl e \<Rightarrow> console_warn e b1)
      else b1)"

section \<open>Events, attribution records and stored values\<close>

text \<open>
  \<^verbatim>\<open>lib/types/events.ts\<close>. The declared type of \<^verbatim>\<open>action\<close>, \<^verbatim>\<open>visitor_id\<close>, ... is
  \<^verbatim>\<open>string\<close>, but \<^verbatim>\<open>enrichEvent\<close> spreads the caller's partial event over its defaults, so at
  run time such a field holds \<^verbatim>\<open>undefined\<close> when the caller passed the key with that value:
  \<open>None\<close> below. A property of a partial event is absent, present with \<^verbatim>\<open>undefined\<close>, or
  present with a value. Strings are lists of 8-bit characters.
\<close>

record ConsentState =
  analytics :: bool
  ads :: bool
  marketing :: bool

record Attribution =
  source :: "string option"
  medium :: "string option"
  campaign :: "string option"
  attr_term :: "string option"
  content :: "string option"
  referrer :: "string option"
  timestamp :: string

record ClickIds =
  gclid :: "string option"
  fbclid :: "string option"
  ttclid :: "string option"
  msclkid :: "string option"

record EventPayload =
  event_id :: "string option"
  occurred_at :: "string option"
  experience_id :: "string option"
  action :: "string option"
  visitor_id :: "string option"
  session_id :: "string option"
  consent :: "ConsentState option"
  region :: "string option"
  dedup_id :: string
  payload :: "(string \<times> string) list"

datatype 'a field = Absent | Undefined | Given 'a

record PartialEvent =
  p_event_id :: "string field"
  p_occurred_at :: "string field"
  p_experience_id :: "string field"
  p_action :: "string field"
  p_visitor_id :: "string field"
  p_session_id :: "string field"
  p_consent :: "ConsentState field"
  p_region :: "string field"
  p_dedup_id :: "string field"
  p_payload :: "(string \<times> string) list"

record QueuedEvent =
  event :: EventPayload
  attempts :: int
  queued_created_at :: int
  next_retry_at :: "int option"

datatype stored =
    Queue "QueuedEvent list"
  | Ids "string list"
  | Str string
  | Num int
  | Attr Attribution
  | Clicks ClickIds

text \<open>What one call reads from its surroundings: the clock, the same instant as an ISO
  string, and the next \<^verbatim>\<open>ulid()\<close>, which raises where no secure random source exists.\<close>

record env =
  now :: int
  toISOString :: string
  ulid :: "error + string"

section \<open>Identifiers (lib/utils/ids.ts)\<close>

definition generateEventId :: "env \<Rightarrow> error + string" where
  "generateEventId e = (case ulid e of Inl err \<Rightarrow> Inl err | Inr u \<Rightarrow> Inr (''event_'' @ u))"

definition b64_char :: "nat \<Rightarrow> char" where
  "b64_char n =
     ''ABCDEFGHIJKLMNOPQRSTUVWXYZabcdefghijklmnopqrstuvwxyz0123456789+/'' ! (n mod 64)"

fun btoa :: "string \<Rightarrow> string" where
  "btoa [] = []"
| "btoa [a] =
     (let x = (of_char a :: nat) in
      [b64_char (x div 4), b64_char (x mod 4 * 16), CHR ''='', CHR ''=''])"
| "btoa [a, b] =
     (let x = (of_char a :: nat); y = (of_char b :: nat) in
      [b64_char (x div 4), b64_char (x mod 4 * 16 + y div 16), b64_char (y mod 16 * 4), CHR ''=''])"
| "btoa (a # b # c # rest) =
     (let x = (of_char a :: nat); y = (of_char b :: nat); z = (of_char c :: nat) in
      [b64_char (x div 4), b64_char (x mod 4 * 16 + y div 16),
       b64_char (y mod 16 * 4 + z div 64), b64_char z]) @ btoa rest"

definition toLowerCase :: "string \<Rightarrow> string" where
  "toLowerCase s =
     map (\<lambda>c. let n = (of_char c :: nat) in if 65 \<le> n \<and> n \<le> 90 then char_of (n + 32) else c) s"

fun decimal :: "nat \<Rightarrow> string" where
  "decimal n =
     (if n < 10 then [char_of (48 + n)] else decimal (n div 10) @ [char_of (48 + n mod 10)])"

declare decimal.simps [simp del]

definition number_toString :: "int \<Rightarrow> string" where
  "number_toString i = (if i < 0 then CHR ''-'' # decimal (nat (- i)) else decimal (nat i))"

definition or_else :: "string option \<Rightarrow> string \<Rightarrow> string" where
  \<comment> \<open>\<^verbatim>\<open>x || y\<close> on a string that may be undefined\<close>
  "or_else x y = (case x of None \<Rightarrow> y | Some s \<Rightarrow> if s = [] then y else s)"

definition join_text :: "string option \<Rightarrow> string" where
  \<comment> \<open>\<^verbatim>\<open>Array.prototype.join\<close> writes undefined as the empty string\<close>
  "join_text x = (case x of None \<Rightarrow> [] | Some s \<Rightarrow> s)"

definition generateDedupId ::
  "env \<Rightarrow> string option \<Rightarrow> string option \<Rightarrow> string option \<Rightarrow> string option \<Rightarrow> string" where
  "generateDedupId e visitor act experience stamp =
     (let key = join_text visitor @ ''|'' @ join_text act @ ''|''
                @ or_else experience ''no_experience'' @ ''|''
                @ or_else stamp (number_toString (now e))
      in toLowerCase (filter (\<lambda>c. c \<noteq> CHR ''/'' \<and> c \<noteq> CHR ''+'' \<and> c \<noteq> CHR ''='') (btoa key)))"

section \<open>The event bus (lib/events/event-bus.ts)\<close>

record AnalyticsAdapter =
  name :: string
  isEnabled :: bool
  checkConsent :: "ConsentState option \<Rightarrow> string option \<Rightarrow> error + bool"
  adapter_track :: "EventPayload \<Rightarrow> error + unit"

record EventBusConfig =
  enableOfflineQueue :: bool
  maxQueueSize :: int
  retryAttempts :: int
  retryDelay :: int
  batchSize :: int
  flushInterval :: int

text \<open>
  An adapter is its name, its enabled flag, and how \<^verbatim>\<open>checkConsent\<close> and \<^verbatim>\<open>track\<close> end
  for a given event: with a value or with an exception (a rejected promise). A listener is
  how it ends for a given event. One call of a bus method reads the clock once. The
  callbacks of \<^verbatim>\<open>processEvent\<close> and \<^verbatim>\<open>notifyListeners\<close> run in registration order; an
  adapter's \<^verbatim>\<open>catch\<close> touches the stored queue only, and the adapter calls touch the call
  log only, so the order in which the promises settle does not change the result. Under
  the keys \<^verbatim>\<open>event_queue\<close>, \<^verbatim>\<open>recent_event_ids\<close>, \<^verbatim>\<open>visitor_id\<close> and \<^verbatim>\<open>session_id\<close> a value of
  another shape than the one the bus writes reads as absent.
\<close>

text \<open>
  The bus with what it touches: the browser store behind \<^verbatim>\<open>storage\<close>, and three logs that
  record what an observer sees: each \<^verbatim>\<open>adapter.track(event)\<close> call (adapter name and
  event), each listener call (position and event), and what went to \<^verbatim>\<open>console.error\<close>
  and to Sentry. The loggers themselves do not raise.
\<close>

record EventBus =
  adapters :: "AnalyticsAdapter list"
  listeners :: "(EventPayload \<Rightarrow> error + unit) list"
  config :: EventBusConfig
  isOnline :: bool
  isProcessing :: bool
  browser :: "stored browser"
  track_calls :: "(string \<times> EventPayload) list"
  listener_calls :: "(nat \<times> EventPayload) list"
  console_errors :: "error list"
  sentry :: "error list"

definition console_error :: "error \<Rightarrow> EventBus \<Rightarrow> EventBus" where
  "console_error e b = b\<lparr>console_errors := console_errors b @ [e]\<rparr>"

fun map_set :: "AnalyticsAdapter \<Rightarrow> AnalyticsAdapter list \<Rightarrow> AnalyticsAdapter list" where
  "map_set a [] = [a]"
| "map_set a (x # xs) = (if name x = name a then a # xs else x # map_set a xs)"

definition addAdapter :: "EventBus \<Rightarrow> AnalyticsAdapter \<Rightarrow> EventBus" where
  "addAdapter b a = (if \<not> isEnabled a then b else b\<lparr>adapters := map_set a (adapters b)\<rparr>)"

definition removeAdapter :: "EventBus \<Rightarrow> string \<Rightarrow> EventBus" where
  "removeAdapter b n = b\<lparr>adapters := filter (\<lambda>a. name a \<noteq> n) (adapters b)\<rparr>"

subsection \<open>Storage methods\<close>

definition getEventQueue :: "EventBus \<Rightarrow> int \<Rightarrow> EventBus \<times> QueuedEvent list" where
  "getEventQueue b t =
     (case SafeStorage_getItem (browser b) t ''event_queue'' of
        (br, Some (Queue q)) \<Rightarrow> (b\<lparr>browser := br\<rparr>, q)
      | (br, _) \<Rightarrow> (b\<lparr>browser := br\<rparr>, []))"

definition saveEventQueue :: "EventBus \<Rightarrow> int \<Rightarrow> QueuedEvent list \<Rightarrow> EventBus" where
  "saveEventQueue b t queue =
     b\<lparr>browser := SafeStorage_setItem (browser b) t ''event_queue'' (Queue queue) (Some 24)\<rparr>"

definition getRecentEventIds :: "EventBus \<Rightarrow> int \<Rightarrow> EventBus \<times> string list" where
  "getRecentEventIds b t =
     (case SafeStorage_getItem (browser b) t ''recent_event_ids'' of
        (br, Some (Ids ids)) \<Rightarrow> (b\<lparr>browser := br\<rparr>, ids)
      | (br, _) \<Rightarrow> (b\<lparr>browser := br\<rparr>, []))"

definition markEventProcessed :: "EventBus \<Rightarrow> int \<Rightarrow> string \<Rightarrow> EventBus" where
  "markEventProcessed b t dedupId =
     (case getRecentEventIds b t of
        (b1, ids) \<Rightarrow>
          let recentIds = ids @ [dedupId];
              recentIds = (if length recentIds > 100 then tl recentIds else recentIds)
          in b1\<lparr>browser :=
                  SafeStorage_setItem (browser b1) t ''recent_event_ids'' (Ids recentIds) (Some 1)\<rparr>)"

definition stored_id :: "EventBus \<Rightarrow> int \<Rightarrow> string \<Rightarrow> EventBus \<times> string" where
  \<comment> \<open>\<^verbatim>\<open>storage.getItem<string>(key) || 'unknown'\<close>\<close>
  "stored_id b t key =
     (case SafeStorage_getItem (browser b) t key of
        (br, Some (Str s)) \<Rightarrow> (b\<lparr>browser := br\<rparr>, if s = [] then ''unknown'' else s)
      | (br, _) \<Rightarrow> (b\<lparr>browser := br\<rparr>, ''unknown''))"

definition getVisitorId :: "EventBus \<Rightarrow> int \<Rightarrow> EventBus \<times> string" where
  "getVisitorId b t = stored_id b t ''visitor_id''"

definition getSessionId :: "EventBus \<Rightarrow> int \<Rightarrow> EventBus \<times> string" where
  "getSessionId b t = stored_id b t ''session_id''"

definition getDefaultConsent :: ConsentState where
  "getDefaultConsent = \<lparr>analytics = False, ads = False, marketing = False\<rparr>"

subsection \<open>Enrichment and validation\<close>

definition field_or :: "string field \<Rightarrow> string \<Rightarrow> string" where
  \<comment> \<open>\<^verbatim>\<open>eventData.x || d\<close>\<close>
  "field_or f d = (case f of Given s \<Rightarrow> if s = [] then d else s | _ \<Rightarrow> d)"

definition truthy_field :: "string field \<Rightarrow> bool" where
  "truthy_field f = (case f of Given s \<Rightarrow> s \<noteq> [] | _ \<Rightarrow> False)"

definition spread :: "'a field \<Rightarrow> 'a \<Rightarrow> 'a option" where
  \<comment> \<open>the value of key \<^verbatim>\<open>x\<close> in \<^verbatim>\<open>{ x: d, ...eventData }\<close>\<close>
  "spread f d = (case f of Absent \<Rightarrow> Some d | Undefined \<Rightarrow> None | Given v \<Rightarrow> Some v)"

definition optional :: "'a field \<Rightarrow> 'a option" where
  "optional f = (case f of Given v \<Rightarrow> Some v | _ \<Rightarrow> None)"

definition enrichEvent :: "EventBus \<Rightarrow> env \<Rightarrow> PartialEvent \<Rightarrow> EventBus \<times> (error + EventPayload)" where
  "enrichEvent b e eventData =
     (case generateEventId e of
        Inl err \<Rightarrow> (b, Inl err)
      | Inr new_id \<Rightarrow>
          (case (if truthy_field (p_visitor_id eventData) then (b, [])
                 else getVisitorId b (now e)) of
             (b1, vid) \<Rightarrow>
               (case (if truthy_field (p_session_id eventData) then (b1, [])
                      else getSessionId b1 (now e)) of
                  (b2, sid) \<Rightarrow>
                    let ev = \<lparr>event_id = spread (p_event_id eventData) new_id,
                              occurred_at = spread (p_occurred_at eventData) (toISOString e),
                              experience_id = optional (p_experience_id eventData),
                              action = spread (p_action eventData)
                                         (field_or (p_action eventData) ''unknown''),
                              visitor_id = spread (p_visitor_id eventData)
                                             (field_or (p_visitor_id eventData) vid),
                              session_id = spread (p_session_id eventData)
                                             (field_or (p_session_id eventData) sid),
                              consent = spread (p_consent eventData)
                                          (case p_consent eventData of
                                             Given c \<Rightarrow> c | _ \<Rightarrow> getDefaultConsent),
                              region = spread (p_region eventData)
                                         (field_or (p_region eventData) ''US''),
                              dedup_id = [],
                              payload = p_payload eventData\<rparr>
                    in (b2, Inr (ev\<lparr>dedup_id :=
                                generateDedupId e (visitor_id ev) (action ev)
                                  (experience_id ev) (occurred_at ev)\<rparr>)))))"

definition truthy :: "string option \<Rightarrow> bool" where
  "truthy x = (case x of None \<Rightarrow> False | Some s \<Rightarrow> s \<noteq> [])"

definition validateEvent :: "EventPayload \<Rightarrow> bool" where
  "validateEvent ev =
     (truthy (event_id ev) \<and> truthy (action ev) \<and> truthy (visitor_id ev)
      \<and> truthy (session_id ev) \<and> dedup_id ev \<noteq> [])"

definition isDuplicate :: "EventBus \<Rightarrow> int \<Rightarrow> EventPayload \<Rightarrow> EventBus \<times> bool" where
  "isDuplicate b t ev =
     (case getRecentEventIds b t of (b1, recentEvents) \<Rightarrow> (b1, dedup_id ev \<in> set recentEvents))"

subsection \<open>Listeners, adapters and the offline queue\<close>

fun notify_from :: "nat \<Rightarrow> (EventPayload \<Rightarrow> error + unit) list \<Rightarrow> EventPayload \<Rightarrow> EventBus \<Rightarrow> EventBus" where
  "notify_from i [] ev b = b"
| "notify_from i (listener # rest) ev b =
     (let b1 = b\<lparr>listener_calls := listener_calls b @ [(i, ev)]\<rparr> in
      notify_from (Suc i) rest ev
        (case listener ev of Inr u \<Rightarrow> b1 | Inl err \<Rightarrow> console_error err b1))"

definition notifyListeners :: "EventBus \<Rightarrow> EventPayload \<Rightarrow> EventBus" where
  "notifyListeners b ev = notify_from 0 (listeners b) ev b"

definition queueEvent :: "EventBus \<Rightarrow> env \<Rightarrow> EventPayload \<Rightarrow> EventBus" where
  "queueEvent b e ev =
     (case getEventQueue b (now e) of
        (b1, queue) \<Rightarrow>
          let queue1 = (if int (length queue) \<ge> maxQueueSize (config b1) then tl queue else queue);
              queuedEvent = \<lparr>event = ev, attempts = 0, queued_created_at = now e,
                             next_retry_at = None\<rparr>
          in saveEventQueue b1 (now e) (queue1 @ [queuedEvent]))"

definition adapter_failed :: "EventBus \<Rightarrow> env \<Rightarrow> EventPayload \<Rightarrow> error \<Rightarrow> EventBus" where
  \<comment> \<open>the \<^verbatim>\<open>catch\<close> of one adapter's callback in \<^verbatim>\<open>processEvent\<close>\<close>
  "adapter_failed b e ev err =
     (let b1 = console_error err b in
      if enableOfflineQueue (config b1) then queueEvent b1 e ev else b1)"

definition deliver :: "env \<Rightarrow> EventPayload \<Rightarrow> AnalyticsAdapter \<Rightarrow> EventBus \<Rightarrow> EventBus" where
  \<comment> \<open>one adapter's callback in \<^verbatim>\<open>processEvent\<close>\<close>
  "deliver e ev adapter b =
     (case checkConsent adapter (consent ev) (region ev) of
        Inl err \<Rightarrow> adapter_failed b e ev err
      | Inr False \<Rightarrow> b
      | Inr True \<Rightarrow>
          (let b1 = b\<lparr>track_calls := track_calls b @ [(name adapter, ev)]\<rparr> in
           case adapter_track adapter ev of
             Inr u \<Rightarrow> b1
           | Inl err \<Rightarrow> adapter_failed b1 e ev err))"

definition processEvent :: "EventBus \<Rightarrow> env \<Rightarrow> EventPayload \<Rightarrow> EventBus \<times> (error + unit)" where
  "processEvent b e ev =
     (let b1 = fold (deliver e ev) (adapters b) b in
      (markEventProcessed b1 (now e) (dedup_id ev), Inr ()))"

definition retry_later :: "QueuedEvent \<Rightarrow> int \<Rightarrow> bool" where
  \<comment> \<open>\<^verbatim>\<open>queuedEvent.next_retry_at && Date.now() < queuedEvent.next_retry_at\<close>\<close>
  "retry_later q t = (case next_retry_at q of None \<Rightarrow> False | Some r \<Rightarrow> r \<noteq> 0 \<and> t < r)"

fun drain :: "QueuedEvent list \<Rightarrow> QueuedEvent list \<Rightarrow> EventBus \<Rightarrow> env \<Rightarrow> QueuedEvent list \<times> EventBus" where
  "drain [] queue b e = (queue, b)"
| "drain (queuedEvent # batch) queue b e =
     (if retry_later queuedEvent (now e) then drain batch (queuedEvent # queue) b e
      else
        (case processEvent b e (event queuedEvent) of
           (b1, Inr u) \<Rightarrow> drain batch queue b1 e
         | (b1, Inl err) \<Rightarrow>
             (let q1 = queuedEvent\<lparr>attempts := attempts queuedEvent + 1\<rparr> in
              if attempts q1 < retryAttempts (config b1) then
                drain batch
                  (queue @ [q1\<lparr>next_retry_at :=
                                  Some (now e + retryDelay (config b1) * attempts q1)\<rparr>]) b1 e
              else drain batch queue (console_error err b1) e)))"

definition processQueuedEvents :: "EventBus \<Rightarrow> env \<Rightarrow> EventBus" where
  "processQueuedEvents b e =
     (if isProcessing b \<or> \<not> isOnline b then b
      else
        (case getEventQueue (b\<lparr>isProcessing := True\<rparr>) (now e) of
           (b1, queue) \<Rightarrow>
             if queue = [] then b1\<lparr>isProcessing := False\<rparr>
             else
               (case drain (take (nat (batchSize (config b1))) queue)
                           (drop (nat (batchSize (config b1))) queue) b1 e of
                  (queue', b2) \<Rightarrow> (saveEventQueue b2 (now e) queue')\<lparr>isProcessing := False\<rparr>)))"

subsection \<open>track\<close>

definition track_try :: "EventBus \<Rightarrow> env \<Rightarrow> PartialEvent \<Rightarrow> EventBus \<times> (error + unit)" where
  "track_try b e eventData =
     (case enrichEvent b e eventData of
        (b1, Inl err) \<Rightarrow> (b1, Inl err)
      | (b1, Inr ev) \<Rightarrow>
          if \<not> validateEvent ev then (b1, Inl InvalidEventData)
          else
            (case isDuplicate b1 (now e) ev of
               (b2, True) \<Rightarrow> (b2\<lparr>browser := console_warn DuplicateEvent (browser b2)\<rparr>, Inr ())
             | (b2, False) \<Rightarrow>
                 (let b3 = notifyListeners b2 ev in
                  if isOnline b3 then processEvent b3 e ev
                  else if enableOfflineQueue (config b3) then (queueEvent b3 e ev, Inr ())
                  else (b3, Inr ()))))"

definition track :: "EventBus \<Rightarrow> env \<Rightarrow> PartialEvent \<Rightarrow> EventBus \<times> (error + unit)" where
  "track b e eventData =
     (case track_try b e eventData of
        (b1, Inr u) \<Rightarrow> (b1, Inr u)
      | (b1, Inl err) \<Rightarrow> ((console_error err b1)\<lparr>sentry := sentry b1 @ [err]\<rparr>, Inr ()))"

section \<open>Attribution (lib/utils/attribution.ts)\<close>

text \<open>
  The page as \<^verbatim>\<open>processCurrentVisit\<close> reads it. \<^verbatim>\<open>new URL(...)\<close> belongs to the platform:
  the query pairs of \<^verbatim>\<open>window.location.href\<close> and the host name of the referrer (or the
  \<^verbatim>\<open>TypeError\<close> raised for text that is no URL) are taken as given.
\<close>

record page =
  location_search :: "(string \<times> string) list"
  location_hostname :: string
  document_referrer :: string
  referrer_hostname :: "error + string"

record UtmParams =
  utm_source :: "string option"
  utm_medium :: "string option"
  utm_campaign :: "string option"
  utm_term :: "string option"
  utm_content :: "string option"

definition params_get :: "(string \<times> string) list \<Rightarrow> string \<Rightarrow> string option" where
  \<comment> \<open>\<^verbatim>\<open>params.get(k) || undefined\<close>\<close>
  "params_get q k = (case map_of q k of None \<Rightarrow> None | Some v \<Rightarrow> if v = [] then None else Some v)"

definition parseUrlParams :: "(string \<times> string) list \<Rightarrow> UtmParams \<times> ClickIds" where
  "parseUrlParams q =
     (\<lparr>utm_source = params_get q ''utm_source'',
       utm_medium = params_get q ''utm_medium'',
       utm_campaign = params_get q ''utm_campaign'',
       utm_term = params_get q ''utm_term'',
       utm_content = params_get q ''utm_content''\<rparr>,
      \<lparr>gclid = params_get q ''gclid'',
       fbclid = params_get q ''fbclid'',
       ttclid = params_get q ''ttclid'',
       msclkid = params_get q ''msclkid''\<rparr>)"

definition createAttribution :: "env \<Rightarrow> UtmParams \<Rightarrow> string option \<Rightarrow> Attribution" where
  "createAttribution e utmParams ref =
     \<lparr>source = utm_source utmParams,
      medium = utm_medium utmParams,
      campaign = utm_campaign utmParams,
      attr_term = utm_term utmParams,
      content = utm_content utmParams,
      referrer = ref,
      timestamp = toISOString e\<rparr>"

definition extractClickIds :: "(string \<times> string) list \<Rightarrow> ClickIds" where
  "extractClickIds q = snd (parseUrlParams q)"

fun str_includes :: "string \<Rightarrow> string \<Rightarrow> bool" where
  "str_includes [] sub = (sub = [])"
| "str_includes (c # s) sub = (take (length sub) (c # s) = sub \<or> str_includes s sub)"

fun replace_first :: "string \<Rightarrow> string \<Rightarrow> string \<Rightarrow> string" where
  \<comment> \<open>\<^verbatim>\<open>s.replace(pat, rep)\<close> with a string pattern: the first occurrence only\<close>
  "replace_first [] pat rep = (if pat = [] then rep else [])"
| "replace_first (c # s) pat rep =
     (if take (length pat) (c # s) = pat then rep @ drop (length pat) (c # s)
      else c # replace_first s pat rep)"

definition getSourceFromReferrer :: "page \<Rightarrow> string" where
  "getSourceFromReferrer p =
     (if document_referrer p = [] then ''direct''
      else
        (case referrer_hostname p of
           Inl err \<Rightarrow> ''unknown''
         | Inr host \<Rightarrow>
             (let domain = toLowerCase host in
              if str_includes domain ''facebook.com'' \<or> str_includes domain ''fb.com'' then ''facebook''
              else if str_includes domain ''twitter.com'' \<or> str_includes domain ''x.com'' then ''twitter''
              else if str_includes domain ''linkedin.com'' then ''linkedin''
              else if str_includes domain ''youtube.com'' then ''youtube''
              else if str_includes domain ''instagram.com'' then ''instagram''
              else if str_includes domain ''tiktok.com'' then ''tiktok''
              else if str_includes domain ''google.com'' then ''google''
              else if str_includes domain ''bing.com'' then ''bing''
              else if str_includes domain ''yahoo.com'' then ''yahoo''
              else if str_includes domain ''duckduckgo.com'' then ''duckduckgo''
              else replace_first domain ''www.'' [])))"

definition getMediumFromReferrer :: "page \<Rightarrow> string" where
  "getMediumFromReferrer p =
     (if document_referrer p = [] then ''direct''
      else
        (let src = getSourceFromReferrer p in
         if src \<in> set [''google'', ''bing'', ''yahoo'', ''duckduckgo''] then ''organic''
         else if src \<in> set [''facebook'', ''twitter'', ''linkedin'', ''youtube'',
                              ''instagram'', ''tiktok''] then ''social''
         else ''referral''))"

definition FIRST_TOUCH :: string where "FIRST_TOUCH = ''growth_toolkit_first_touch''"
definition LAST_TOUCH :: string where "LAST_TOUCH = ''growth_toolkit_last_touch''"
definition CLICK_IDS :: string where "CLICK_IDS = ''growth_toolkit_click_ids''"

section \<open>The attribution tracker (lib/attribution/attribution-tracker.ts)\<close>

text \<open>
  \<^verbatim>\<open>processCurrentVisit\<close> and the readers of the first-touch and last-touch records. The
  tracker keeps its records in the cross-domain store; one call reads the clock once. The
  visitor and session identifiers (with their fractional-hour TTL) are not part of this
  model.
\<close>

record AttributionConfig =
  enableCrossDomain :: bool
  sessionTimeoutMinutes :: int
  attributionWindowDays :: int
  overrideFirstTouch :: bool

definition isExternalReferrer :: "page \<Rightarrow> bool" where
  "isExternalReferrer p =
     (if document_referrer p = [] then False
      else
        (case referrer_hostname p of
           Inl err \<Rightarrow> False
         | Inr referrerDomain \<Rightarrow> referrerDomain \<noteq> location_hostname p))"

definition no_utm :: UtmParams where
  "no_utm = \<lparr>utm_source = None, utm_medium = None, utm_campaign = None,
             utm_term = None, utm_content = None\<rparr>"

definition visit_attribution :: "page \<Rightarrow> env \<Rightarrow> Attribution" where
  \<comment> \<open>the \<^verbatim>\<open>if / else if / else\<close> of \<^verbatim>\<open>processCurrentVisit\<close> that assigns \<^verbatim>\<open>attribution\<close>\<close>
  "visit_attribution p e =
     (let urlParams = fst (parseUrlParams (location_search p)) in
      if utm_source urlParams \<noteq> None \<or> utm_medium urlParams \<noteq> None
         \<or> utm_campaign urlParams \<noteq> None
      then createAttribution e urlParams (Some (document_referrer p))
      else if document_referrer p \<noteq> [] \<and> isExternalReferrer p
      then createAttribution e
             (no_utm\<lparr>utm_source := Some (getSourceFromReferrer p),
                     utm_medium := Some (getMediumFromReferrer p)\<rparr>)
             (Some (document_referrer p))
      else createAttribution e
             (no_utm\<lparr>utm_source := Some ''direct'', utm_medium := Some ''direct''\<rparr>) None)"

definition stored_truthy :: "stored option \<Rightarrow> bool" where
  "stored_truthy v =
     (case v of
        None \<Rightarrow> False
      | Some (Str s) \<Rightarrow> s \<noteq> []
      | Some (Num n) \<Rightarrow> n \<noteq> 0
      | Some other \<Rightarrow> True)"

definition getFirstTouchAttribution :: "stored browser \<Rightarrow> int \<Rightarrow> stored browser \<times> stored option" where
  "getFirstTouchAttribution b t = CrossDomainStorage_getItem b t FIRST_TOUCH"


definition some_click_id :: "ClickIds \<Rightarrow> bool" where
  \<comment> \<open>\<^verbatim>\<open>Object.values(clickIds).some(Boolean)\<close>\<close>
  "some_click_id c =
     (truthy (gclid c) \<or> truthy (fbclid c) \<or> truthy (ttclid c) \<or> truthy (msclkid c))"

definition processCurrentVisit :: "AttributionConfig \<Rightarrow> stored browser \<Rightarrow> page \<Rightarrow> env \<Rightarrow> stored browser" where
  "processCurrentVisit cfg b p e =
     (let ttl = Some (attributionWindowDays cfg * 24);
          clickIds = extractClickIds (location_search p);
          b1 = (if some_click_id clickIds
                then CrossDomainStorage_setItem b (now e) CLICK_IDS (Clicks clickIds) ttl
                       (enableCrossDomain cfg)
                else b);
          attribution = visit_attribution p e
      in case getFirstTouchAttribution b1 (now e) of
           (b2, existingFirstTouch) \<Rightarrow>
             (let b3 = (if \<not> stored_truthy existingFirstTouch \<or> overrideFirstTouch cfg
                        then CrossDomainStorage_setItem b2 (now e) FIRST_TOUCH (Attr attribution)
                               ttl (enableCrossDomain cfg)
                        else b2)
              in CrossDomainStorage_setItem b3 (now e) LAST_TOUCH (Attr attribution) ttl
                   (enableCrossDomain cfg)))"

section \<open>Auxiliary functions and concrete states used in the proofs\<close>

definition stale_browser :: "string browser" where
  "stale_browser =
     \<lparr>isClient = True,
      localStorage = [(''k'', Json \<lparr>item_value = ''old'', expires_at = Some 10, created_at = 0\<rparr>)],
      getItem_throws = False, setItem_throws = False, removeItem_throws = False,
      has_document = True,
      cookie_jar = [(''k'', \<lparr>cookie_value = GoodCookie ''mirror'', cookie_expires = None\<rparr>)],
      cookie_get_throws = False, cookie_set_throws = False, warnings = []\<rparr>"

definition defaultConfig :: EventBusConfig where
  \<comment> \<open>the defaults of the \<^verbatim>\<open>EventBus\<close> constructor\<close>
  "defaultConfig =
     \<lparr>enableOfflineQueue = True, maxQueueSize = 1000, retryAttempts = 3, retryDelay = 2000,
      batchSize = 10, flushInterval = 5000\<rparr>"

definition working_browser :: "stored browser" where
  "working_browser =
     \<lparr>isClient = True, localStorage = [], getItem_throws = False, setItem_throws = False,
      removeItem_throws = False, has_document = True, cookie_jar = [],
      cookie_get_throws = False, cookie_set_throws = False, warnings = []\<rparr>"

definition fresh_bus :: EventBus where
  "fresh_bus =
     \<lparr>adapters = [], listeners = [], config = defaultConfig, isOnline = True,
      isProcessing = False, browser = working_browser, track_calls = [],
      listener_calls = [], console_errors = [], sentry = []\<rparr>"

definition full_buffer_bus :: EventBus where
  "full_buffer_bus =
     fresh_bus\<lparr>browser := working_browser\<lparr>localStorage :=
       [(''recent_event_ids'',
         Json \<lparr>item_value = Ids (replicate 100 ''x''), expires_at = None, created_at = 0\<rparr>)]\<rparr>\<rparr>"

definition enqueue :: "int \<Rightarrow> QueuedEvent list \<Rightarrow> QueuedEvent \<Rightarrow> QueuedEvent list" where
  \<comment> \<open>what \<^verbatim>\<open>queueEvent\<close> does to the array it read: shift when full, then push\<close>
  "enqueue cap queue q = (if int (length queue) \<ge> cap then tl queue else queue) @ [q]"

definition fresh_entry :: "env \<Rightarrow> EventPayload \<Rightarrow> QueuedEvent" where
  "fresh_entry e ev = \<lparr>event = ev, attempts = 0, queued_created_at = now e, next_retry_at = None\<rparr>"

definition clock :: "int \<Rightarrow> env" where
  "clock t = \<lparr>now = t, toISOString = ''2024-01-01T00:00:00.000Z'', ulid = Inr ''01HV''\<rparr>"

definition sample_event :: "string \<Rightarrow> EventPayload" where
  "sample_event a =
     \<lparr>event_id = Some ''event_01HV'', occurred_at = Some ''2024-01-01T00:00:00.000Z'',
      experience_id = None, action = Some a, visitor_id = Some ''visitor_1'',
      session_id = Some ''session_1'',
      consent = Some \<lparr>analytics = True, ads = False, marketing = False\<rparr>,
      region = Some ''US'', dedup_id = a, payload = []\<rparr>"

definition offline_bus :: "int \<Rightarrow> EventBus" where
  \<comment> \<open>a bus that is offline, with a given \<^verbatim>\<open>maxQueueSize\<close> and nothing stored\<close>
  "offline_bus cap = fresh_bus\<lparr>config := defaultConfig\<lparr>maxQueueSize := cap\<rparr>, isOnline := False\<rparr>"

definition granted :: "EventPayload \<Rightarrow> AnalyticsAdapter \<Rightarrow> bool" where
  \<comment> \<open>\<^verbatim>\<open>adapter.checkConsent(event.consent, event.region)\<close> returns true\<close>
  "granted ev a = (checkConsent a (consent ev) (region ev) = Inr True)"

definition raises :: "EventPayload \<Rightarrow> AnalyticsAdapter \<Rightarrow> bool" where
  \<comment> \<open>the adapter's callback in \<^verbatim>\<open>processEvent\<close> reaches its \<^verbatim>\<open>catch\<close>\<close>
  "raises ev a = (isl (checkConsent a (consent ev) (region ev))
                  \<or> (granted ev a \<and> isl (adapter_track a ev)))"

definition BaseAnalyticsAdapter_checkConsent ::
  "ConsentState option \<Rightarrow> string option \<Rightarrow> error + bool" where
  \<comment> \<open>\<^verbatim>\<open>BaseAnalyticsAdapter.checkConsent\<close> (lib/adapters/analytics/base-analytics-adapter.ts)\<close>
  "BaseAnalyticsAdapter_checkConsent c r =
     (case c of
        None \<Rightarrow> Inl TypeError
      | Some cs \<Rightarrow>
          if r = Some ''EU'' \<or> r = Some ''GDPR'' then Inr (analytics cs = True)
          else Inr (analytics cs \<noteq> False))"

definition base_adapter :: "string \<Rightarrow> error + unit \<Rightarrow> AnalyticsAdapter" where
  \<comment> \<open>an adapter with the base class's consent check, whose \<^verbatim>\<open>track\<close> ends as given\<close>
  "base_adapter n outcome =
     \<lparr>name = n, isEnabled = True, checkConsent = BaseAnalyticsAdapter_checkConsent,
      adapter_track = (\<lambda>ev. outcome)\<rparr>"

definition mock_adapter :: "string \<Rightarrow> error + unit \<Rightarrow> AnalyticsAdapter" where
  \<comment> \<open>the test suite's \<^verbatim>\<open>MockAdapter\<close>: consent always granted\<close>
  "mock_adapter n outcome =
     \<lparr>name = n, isEnabled = True, checkConsent = (\<lambda>c r. Inr True),
      adapter_track = (\<lambda>ev. outcome)\<rparr>"

definition three_adapter_bus :: EventBus where
  "three_adapter_bus =
     fresh_bus\<lparr>adapters := [mock_adapter ''first'' (Inr ()),
                              mock_adapter ''broken'' (Inl AdapterError),
                              base_adapter ''ga4'' (Inr ())]\<rparr>"

definition queued_once :: QueuedEvent where
  "queued_once =
     \<lparr>event = sample_event ''page_viewed'', attempts = 0, queued_created_at = 0,
      next_retry_at = None\<rparr>"

definition retry_bus :: EventBus where
  \<comment> \<open>online, default configuration, one adapter whose \<^verbatim>\<open>track\<close> rejects, one queued event\<close>
  "retry_bus =
     fresh_bus\<lparr>adapters := [mock_adapter ''broken'' (Inl AdapterError)],
               browser := working_browser\<lparr>localStorage :=
                 [(''event_queue'',
                   Json \<lparr>item_value = Queue [queued_once], expires_at = Some 86400000,
                         created_at = 0\<rparr>)]\<rparr>\<rparr>"

definition page_view :: PartialEvent where
  "page_view =
     \<lparr>p_event_id = Absent, p_occurred_at = Given ''2024-01-01T00:00:00.000Z'',
      p_experience_id = Absent, p_action = Given ''page_viewed'',
      p_visitor_id = Given ''visitor_1'', p_session_id = Given ''session_1'',
      p_consent = Given \<lparr>analytics = True, ads = False, marketing = False\<rparr>,
      p_region = Given ''US'', p_dedup_id = Absent, p_payload = []\<rparr>"

definition page_view_event :: EventPayload where
  "page_view_event =
     \<lparr>event_id = Some ''event_01HV'', occurred_at = Some ''2024-01-01T00:00:00.000Z'',
      experience_id = None, action = Some ''page_viewed'', visitor_id = Some ''visitor_1'',
      session_id = Some ''session_1'',
      consent = Some \<lparr>analytics = True, ads = False, marketing = False\<rparr>,
      region = Some ''US'',
      dedup_id =
        ''dmlzaxrvcl8xfhbhz2vfdmlld2vkfg5vx2v4cgvyawvuy2v8mjaync0wms0wmvqwmdowmdowmc4wmdba'',
      payload = []\<rparr>"

definition one_adapter_bus :: EventBus where
  \<comment> \<open>the test suite's bus: one \<^verbatim>\<open>MockAdapter\<close>, and here one listener\<close>
  "one_adapter_bus =
     fresh_bus\<lparr>adapters := [mock_adapter ''mock-adapter'' (Inr ())],
               listeners := [\<lambda>ev. Inr ()]\<rparr>"

definition supplied_empty :: "string field \<Rightarrow> bool" where
  \<comment> \<open>the caller passed the key, with \<^verbatim>\<open>undefined\<close> or the empty string\<close>
  "supplied_empty f = (f = Undefined \<or> f = Given [])"

definition button_click :: PartialEvent where
  \<comment> \<open>\<^verbatim>\<open>{ action: 'button_clicked' }\<close>, as the test suite tracks it\<close>
  "button_click =
     \<lparr>p_event_id = Absent, p_occurred_at = Absent, p_experience_id = Absent,
      p_action = Given ''button_clicked'', p_visitor_id = Absent, p_session_id = Absent,
      p_consent = Absent, p_region = Absent, p_dedup_id = Absent, p_payload = []\<rparr>"

definition button_click_event :: EventPayload where
  "button_click_event =
     \<lparr>event_id = Some ''event_01HV'', occurred_at = Some ''2024-01-01T00:00:00.000Z'',
      experience_id = None, action = Some ''button_clicked'', visitor_id = Some ''unknown'',
      session_id = Some ''unknown'',
      consent = Some \<lparr>analytics = False, ads = False, marketing = False\<rparr>,
      region = Some ''US'',
      dedup_id =
        ''dw5rbm93bnxidxr0b25fy2xpy2tlzhxub19lehblcmllbmnlfdiwmjqtmdetmdfumda6mda6mdaumdawwg'',
      payload = []\<rparr>"

definition after_click_ids :: "AttributionConfig \<Rightarrow> stored browser \<Rightarrow> page \<Rightarrow> env \<Rightarrow> stored browser" where
  \<comment> \<open>the store after the first step of \<^verbatim>\<open>processCurrentVisit\<close>, the click-id write\<close>
  "after_click_ids cfg b p e =
     (if some_click_id (extractClickIds (location_search p))
      then CrossDomainStorage_setItem b (now e) CLICK_IDS
             (Clicks (extractClickIds (location_search p)))
             (Some (attributionWindowDays cfg * 24)) (enableCrossDomain cfg)
      else b)"

definition after_first_touch :: "AttributionConfig \<Rightarrow> stored browser \<Rightarrow> page \<Rightarrow> env \<Rightarrow> stored browser" where
  \<comment> \<open>the store after the first-touch step of \<^verbatim>\<open>processCurrentVisit\<close>\<close>
  "after_first_touch cfg b p e =
     (let b2 = fst (getFirstTouchAttribution (after_click_ids cfg b p e) (now e)) in
      if \<not> stored_truthy (snd (getFirstTouchAttribution (after_click_ids cfg b p e) (now e)))
         \<or> overrideFirstTouch cfg
      then CrossDomainStorage_setItem b2 (now e) FIRST_TOUCH (Attr (visit_attribution p e))
             (Some (attributionWindowDays cfg * 24)) (enableCrossDomain cfg)
      else b2)"




definition platform_domains :: "(string \<times> string) list" where
  \<comment> \<open>the domains \<^verbatim>\<open>getSourceFromReferrer\<close> looks for, in its order, with the name it returns\<close>
  "platform_domains =
     [(''facebook.com'', ''facebook''), (''fb.com'', ''facebook''),
      (''twitter.com'', ''twitter''), (''x.com'', ''twitter''),
      (''linkedin.com'', ''linkedin''), (''youtube.com'', ''youtube''),
      (''instagram.com'', ''instagram''), (''tiktok.com'', ''tiktok''),
      (''google.com'', ''google''), (''bing.com'', ''bing''),
      (''yahoo.com'', ''yahoo''), (''duckduckgo.com'', ''duckduckgo'')]"

definition search_engines :: "string list" where
  "search_engines = [''google'', ''bing'', ''yahoo'', ''duckduckgo'']"

definition social_networks :: "string list" where
  "social_networks = [''facebook'', ''twitter'', ''linkedin'', ''youtube'', ''instagram'', ''tiktok'']"






section \<open>Properties of the durable keyed store\<close>

lemma SafeStorage_getItem_result:
  "snd (SafeStorage_getItem b t k) =
     (if isClient b \<and> \<not> getItem_throws b then
        (case map_of (localStorage b) k of
           Some (Json item) \<Rightarrow> if is_expired item t then None else Some (item_value item)
         | _ \<Rightarrow> None)
      else None)"
  by (simp add: SafeStorage_getItem_def getItem_try_def localStorage_getItem_def JSON_parse_def
      split: option.splits stored_text.splits sum.splits)

lemma SafeStorage_removeItem_frame [simp]:
  "isClient (SafeStorage_removeItem b k) = isClient b"
  "getItem_throws (SafeStorage_removeItem b k) = getItem_throws b"
  "setItem_throws (SafeStorage_removeItem b k) = setItem_throws b"
  "removeItem_throws (SafeStorage_removeItem b k) = removeItem_throws b"
  "has_document (SafeStorage_removeItem b k) = has_document b"
  "cookie_jar (SafeStorage_removeItem b k) = cookie_jar b"
  "cookie_get_throws (SafeStorage_removeItem b k) = cookie_get_throws b"
  "cookie_set_throws (SafeStorage_removeItem b k) = cookie_set_throws b"
  by (simp_all add: SafeStorage_removeItem_def localStorage_removeItem_def console_warn_def)

lemma SafeStorage_removeItem_localStorage:
  "localStorage (SafeStorage_removeItem b k) =
     (if isClient b \<and> \<not> removeItem_throws b then AList.delete k (localStorage b)
      else localStorage b)"
  by (simp add: SafeStorage_removeItem_def localStorage_removeItem_def console_warn_def)

lemma SafeStorage_getItem_frame [simp]:
  "isClient (fst (SafeStorage_getItem b t k)) = isClient b"
  "getItem_throws (fst (SafeStorage_getItem b t k)) = getItem_throws b"
  "setItem_throws (fst (SafeStorage_getItem b t k)) = setItem_throws b"
  "removeItem_throws (fst (SafeStorage_getItem b t k)) = removeItem_throws b"
  "has_document (fst (SafeStorage_getItem b t k)) = has_document b"
  "cookie_jar (fst (SafeStorage_getItem b t k)) = cookie_jar b"
  "cookie_get_throws (fst (SafeStorage_getItem b t k)) = cookie_get_throws b"
  "cookie_set_throws (fst (SafeStorage_getItem b t k)) = cookie_set_throws b"
  by (simp_all add: SafeStorage_getItem_def getItem_try_def localStorage_getItem_def
      JSON_parse_def console_warn_def split: option.splits stored_text.splits sum.splits)

lemma SafeStorage_getItem_localStorage:
  "localStorage (fst (SafeStorage_getItem b t k)) =
     (if isClient b \<and> \<not> getItem_throws b \<and> \<not> removeItem_throws b
         \<and> (\<exists>item. map_of (localStorage b) k = Some (Json item) \<and> is_expired item t)
      then AList.delete k (localStorage b) else localStorage b)"
  by (auto simp: SafeStorage_getItem_def getItem_try_def localStorage_getItem_def
      JSON_parse_def console_warn_def SafeStorage_removeItem_localStorage
      split: option.splits stored_text.splits sum.splits)

lemma SafeStorage_setItem_frame [simp]:
  "isClient (SafeStorage_setItem b t k v ttl) = isClient b"
  "getItem_throws (SafeStorage_setItem b t k v ttl) = getItem_throws b"
  "setItem_throws (SafeStorage_setItem b t k v ttl) = setItem_throws b"
  "removeItem_throws (SafeStorage_setItem b t k v ttl) = removeItem_throws b"
  "has_document (SafeStorage_setItem b t k v ttl) = has_document b"
  "cookie_jar (SafeStorage_setItem b t k v ttl) = cookie_jar b"
  "cookie_get_throws (SafeStorage_setItem b t k v ttl) = cookie_get_throws b"
  "cookie_set_throws (SafeStorage_setItem b t k v ttl) = cookie_set_throws b"
  by (simp_all add: SafeStorage_setItem_def setItem_try_def localStorage_setItem_def
      console_warn_def)

lemma SafeStorage_setItem_localStorage:
  "localStorage (SafeStorage_setItem b t k v ttl) =
     (if isClient b \<and> \<not> setItem_throws b
      then AList.update k
             (Json \<lparr>item_value = v, expires_at = ttl_expiry t ttl, created_at = t\<rparr>)
             (localStorage b)
      else localStorage b)"
  by (simp add: SafeStorage_setItem_def setItem_try_def localStorage_setItem_def
      console_warn_def)

lemma cookie_read_try_getItem [simp]:
  "cookie_read_try (fst (SafeStorage_getItem b t k)) t' k' = cookie_read_try b t' k'"
  by (simp add: cookie_read_try_def document_cookie_def)

lemma CrossDomainStorage_getItem_fallback:
  assumes "snd (SafeStorage_getItem b t k) = None"
  shows "snd (CrossDomainStorage_getItem b t k) =
          (if has_document b
           then (case cookie_read_try b t k of Inr r \<Rightarrow> r | Inl err \<Rightarrow> None)
           else None)"
proof -
  obtain b1 r where g: "SafeStorage_getItem b t k = (b1, r)"
    by (cases "SafeStorage_getItem b t k")
  with assms have r: "r = None" by simp
  have b1: "b1 = fst (SafeStorage_getItem b t k)" using g by simp
  have hd: "has_document b1 = has_document b" unfolding b1 by simp
  have cr: "cookie_read_try b1 t k = cookie_read_try b t k" unfolding b1 by simp
  show ?thesis
    by (simp add: CrossDomainStorage_getItem_def g r hd cr split: sum.splits option.splits)
qed

text \<open>
  C9. \<^verbatim>\<open>getItem\<close> of the durable keyed store: a value the primary store holds is
  returned and the cookie mirror is not consulted; an entry found expired is removed from
  the primary store and read as absent; the cookie mirror decides the result exactly when
  the primary read gave nothing; and whatever the primitives raise (a failing
  \<^verbatim>\<open>localStorage\<close>, text that does not parse, a failing cookie read, a failing write)
  ends as an absent read or as a write that changes nothing.
\<close>

theorem durable_store_getItem:
  "(\<forall>v. snd (SafeStorage_getItem b t k) = Some v \<longrightarrow>
        CrossDomainStorage_getItem b t k = (fst (SafeStorage_getItem b t k), Some v))
   \<and> (\<forall>item. isClient b \<and> \<not> getItem_throws b
          \<and> map_of (localStorage b) k = Some (Json item) \<and> is_expired item t \<longrightarrow>
        snd (SafeStorage_getItem b t k) = None
        \<and> (\<not> removeItem_throws b \<longrightarrow>
             map_of (localStorage (fst (SafeStorage_getItem b t k))) k = None))
   \<and> (snd (SafeStorage_getItem b t k) = None \<longrightarrow>
        snd (CrossDomainStorage_getItem b t k) =
          (if has_document b
           then (case cookie_read_try b t k of Inr r \<Rightarrow> r | Inl err \<Rightarrow> None)
           else None))
   \<and> (\<forall>err. getItem_try b t k = Inl err \<longrightarrow>
        snd (SafeStorage_getItem b t k) = None
        \<and> localStorage (fst (SafeStorage_getItem b t k)) = localStorage b)
   \<and> (\<forall>err. cookie_read_try b t k = Inl err \<and> snd (SafeStorage_getItem b t k) = None \<longrightarrow>
        snd (CrossDomainStorage_getItem b t k) = None)
   \<and> (\<forall>err v ttl. setItem_try b t k v ttl = Inl err \<longrightarrow>
        localStorage (SafeStorage_setItem b t k v ttl) = localStorage b
        \<and> cookie_jar (SafeStorage_setItem b t k v ttl) = cookie_jar b)
   \<and> (\<forall>v ttl x. setItem_throws b \<and> cookie_set_throws b \<longrightarrow>
        localStorage (CrossDomainStorage_setItem b t k v ttl x) = localStorage b
        \<and> cookie_jar (CrossDomainStorage_setItem b t k v ttl x) = cookie_jar b)"
proof (intro conjI allI impI)
  fix v assume "snd (SafeStorage_getItem b t k) = Some v"
  then show "CrossDomainStorage_getItem b t k = (fst (SafeStorage_getItem b t k), Some v)"
    by (cases "SafeStorage_getItem b t k") (simp add: CrossDomainStorage_getItem_def)
next
  fix item
  assume a: "isClient b \<and> \<not> getItem_throws b
          \<and> map_of (localStorage b) k = Some (Json item) \<and> is_expired item t"
  then show "snd (SafeStorage_getItem b t k) = None"
    by (simp add: SafeStorage_getItem_result)
  assume "\<not> removeItem_throws b"
  with a show "map_of (localStorage (fst (SafeStorage_getItem b t k))) k = None"
    by (auto simp: SafeStorage_getItem_localStorage delete_conv')
next
  assume "snd (SafeStorage_getItem b t k) = None"
  then show "snd (CrossDomainStorage_getItem b t k) =
          (if has_document b
           then (case cookie_read_try b t k of Inr r \<Rightarrow> r | Inl err \<Rightarrow> None)
           else None)"
    by (rule CrossDomainStorage_getItem_fallback)
next
  fix err assume "cookie_read_try b t k = Inl err \<and> snd (SafeStorage_getItem b t k) = None"
  then show "snd (CrossDomainStorage_getItem b t k) = None"
    by (simp add: CrossDomainStorage_getItem_fallback)
next
  fix err assume a: "getItem_try b t k = Inl err"
  then show "snd (SafeStorage_getItem b t k) = None"
    by (simp add: SafeStorage_getItem_def)
  from a show "localStorage (fst (SafeStorage_getItem b t k)) = localStorage b"
    by (simp add: SafeStorage_getItem_def console_warn_def)
next
  fix err v ttl assume a: "setItem_try b t k v ttl = Inl err"
  then show "localStorage (SafeStorage_setItem b t k v ttl) = localStorage b"
    by (simp add: SafeStorage_setItem_def console_warn_def)
  show "cookie_jar (SafeStorage_setItem b t k v ttl) = cookie_jar b" by simp
next
  fix v ttl x assume a: "setItem_throws b \<and> cookie_set_throws b"
  then show "localStorage (CrossDomainStorage_setItem b t k v ttl x) = localStorage b"
    by (simp add: CrossDomainStorage_setItem_def Let_def set_document_cookie_def
        console_warn_def SafeStorage_setItem_localStorage)
  from a show "cookie_jar (CrossDomainStorage_setItem b t k v ttl x) = cookie_jar b"
    by (simp add: CrossDomainStorage_setItem_def Let_def set_document_cookie_def
        console_warn_def)
qed

theorem durable_store_getItem_witness:
  "snd (SafeStorage_getItem stale_browser 5 ''k'') = Some ''old''
   \<and> snd (CrossDomainStorage_getItem stale_browser 5 ''k'') = Some ''old''
   \<and> is_expired \<lparr>item_value = ''old'', expires_at = Some 10, created_at = 0\<rparr> 20
   \<and> snd (SafeStorage_getItem stale_browser 20 ''k'') = None
   \<and> map_of (localStorage (fst (SafeStorage_getItem stale_browser 20 ''k''))) ''k'' = None
   \<and> snd (CrossDomainStorage_getItem stale_browser 20 ''k'') = Some ''mirror''
   \<and> getItem_try (stale_browser\<lparr>getItem_throws := True\<rparr>) 5 ''k'' = Inl StorageError
   \<and> snd (SafeStorage_getItem (stale_browser\<lparr>getItem_throws := True\<rparr>) 5 ''k'') = None
   \<and> setItem_try (stale_browser\<lparr>setItem_throws := True\<rparr>) 5 ''k'' ''new'' (Some 1)
       = Inl StorageError
   \<and> localStorage (SafeStorage_setItem (stale_browser\<lparr>setItem_throws := True\<rparr>) 5 ''k''
         ''new'' (Some 1)) = localStorage stale_browser"
proof -
  have live: "snd (SafeStorage_getItem stale_browser 5 ''k'') = Some ''old''"
    by (simp add: SafeStorage_getItem_result stale_browser_def is_expired_def)
  have stale: "isClient stale_browser \<and> \<not> getItem_throws stale_browser
      \<and> map_of (localStorage stale_browser) ''k''
          = Some (Json \<lparr>item_value = ''old'', expires_at = Some 10, created_at = 0\<rparr>)
      \<and> is_expired \<lparr>item_value = ''old'', expires_at = Some 10, created_at = 0\<rparr> 20"
    by (simp add: stale_browser_def is_expired_def)
  have rm: "\<not> removeItem_throws stale_browser" by (simp add: stale_browser_def)
  have ck: "cookie_read_try stale_browser 20 ''k'' = Inr (Some ''mirror'')"
    by (simp add: cookie_read_try_def document_cookie_def stale_browser_def cookie_live_def)
  have doc: "has_document stale_browser" by (simp add: stale_browser_def)
  have g: "getItem_try (stale_browser\<lparr>getItem_throws := True\<rparr>) 5 ''k'' = Inl StorageError"
    by (simp add: getItem_try_def localStorage_getItem_def)
  have w: "setItem_try (stale_browser\<lparr>setItem_throws := True\<rparr>) 5 ''k'' ''new'' (Some 1)
       = Inl StorageError"
    by (simp add: setItem_try_def localStorage_setItem_def)
  note A = durable_store_getItem [of stale_browser 5 "''k''"]
  note B = durable_store_getItem [of stale_browser 20 "''k''"]
  note C = durable_store_getItem [of "stale_browser\<lparr>getItem_throws := True\<rparr>" 5 "''k''"]
  note D = durable_store_getItem [of "stale_browser\<lparr>setItem_throws := True\<rparr>" 5 "''k''"]
  from A live have 1: "snd (CrossDomainStorage_getItem stale_browser 5 ''k'') = Some ''old''"
    by simp
  from B stale rm have 2: "snd (SafeStorage_getItem stale_browser 20 ''k'') = None"
    and 3: "map_of (localStorage (fst (SafeStorage_getItem stale_browser 20 ''k''))) ''k'' = None"
    by blast+
  from B 2 ck doc have 4: "snd (CrossDomainStorage_getItem stale_browser 20 ''k'') = Some ''mirror''"
    by simp
  from C g have 5: "snd (SafeStorage_getItem (stale_browser\<lparr>getItem_throws := True\<rparr>) 5 ''k'') = None"
    by blast
  from D w have 6: "localStorage (SafeStorage_setItem (stale_browser\<lparr>setItem_throws := True\<rparr>) 5 ''k''
         ''new'' (Some 1)) = localStorage stale_browser"
    by (simp add: SafeStorage_setItem_localStorage)
  from live 1 stale 2 3 4 g 5 w 6 show ?thesis by blast
qed

section \<open>Properties of track\<close>

lemma processEvent_returns: "snd (processEvent b e ev) = Inr ()"
  by (simp add: processEvent_def Let_def)

text \<open>
  Inside \<^verbatim>\<open>track\<close>, only a failing identifier generator and a failed validation reach the
  outer \<^verbatim>\<open>catch\<close>: listener and adapter errors are caught where they arise.
\<close>

lemma track_try_errors:
  "snd (track_try b e eventData) = Inl err \<Longrightarrow> err = InvalidEventData \<or> ulid e = Inl err"
  by (auto simp: track_try_def enrichEvent_def generateEventId_def processEvent_def Let_def
      split: prod.splits sum.splits if_splits bool.splits)

text \<open>
  C1. For every bus state, every reading of the surroundings and every partial event,
  \<^verbatim>\<open>track\<close> completes normally: whatever is raised while enriching, validating,
  notifying listeners or calling adapters is caught inside and never reaches the caller.
\<close>

theorem track_never_raises: "snd (track b e eventData) = Inr ()"
  by (simp add: track_def split: prod.splits sum.splits)

section \<open>Properties of the recent-id buffer\<close>

lemma getRecentEventIds_result:
  "snd (getRecentEventIds b t) =
     (case snd (SafeStorage_getItem (browser b) t ''recent_event_ids'') of
        Some (Ids ids) \<Rightarrow> ids | _ \<Rightarrow> [])"
  by (simp add: getRecentEventIds_def split: prod.splits option.splits stored.splits)

lemma getRecentEventIds_state:
  "fst (getRecentEventIds b t) =
     b\<lparr>browser := fst (SafeStorage_getItem (browser b) t ''recent_event_ids'')\<rparr>"
  by (simp add: getRecentEventIds_def split: prod.splits option.splits stored.splits)

lemma markEventProcessed_state:
  "markEventProcessed b t d =
     b\<lparr>browser :=
         SafeStorage_setItem (fst (SafeStorage_getItem (browser b) t ''recent_event_ids'')) t
           ''recent_event_ids''
           (Ids (if length (snd (getRecentEventIds b t)) + 1 > 100
                 then tl (snd (getRecentEventIds b t) @ [d])
                 else snd (getRecentEventIds b t) @ [d]))
           (Some 1)\<rparr>"
  by (simp add: markEventProcessed_def Let_def getRecentEventIds_def
      split: prod.splits option.splits stored.splits)

lemma read_after_write:
  assumes "isClient b" "\<not> getItem_throws b" "\<not> setItem_throws b"
    and "case ttl_expiry t ttl of None \<Rightarrow> True | Some x \<Rightarrow> x = 0 \<or> u \<le> x"
  shows "snd (SafeStorage_getItem (SafeStorage_setItem b t k v ttl) u k) = Some v"
  using assms
  by (auto simp: SafeStorage_getItem_result SafeStorage_setItem_localStorage update_conv'
      is_expired_def split: option.splits)

lemma markEventProcessed_appends:
  assumes "isClient (browser b)" "\<not> getItem_throws (browser b)" "\<not> setItem_throws (browser b)"
  shows "snd (getRecentEventIds (markEventProcessed b t d) t) =
           (if length (snd (getRecentEventIds b t)) + 1 > 100
            then tl (snd (getRecentEventIds b t) @ [d])
            else snd (getRecentEventIds b t) @ [d])"
  using assms
  by (subst getRecentEventIds_result)
     (simp add: markEventProcessed_state read_after_write ttl_expiry_def)

lemma raw_read_bound:
  "length (snd (getRecentEventIds b u)) \<le> 100 \<longleftrightarrow>
     (isClient (browser b) \<and> \<not> getItem_throws (browser b) \<longrightarrow>
       (\<forall>item ids. map_of (localStorage (browser b)) ''recent_event_ids'' = Some (Json item)
           \<longrightarrow> \<not> is_expired item u \<longrightarrow> item_value item = Ids ids \<longrightarrow> length ids \<le> 100))"
  by (auto simp: getRecentEventIds_result SafeStorage_getItem_result
      split: option.splits stored_text.splits stored.splits)

lemma markEventProcessed_keeps_bound:
  assumes "\<forall>u. length (snd (getRecentEventIds b u)) \<le> 100"
  shows "length (snd (getRecentEventIds (markEventProcessed b t d) u)) \<le> 100"
proof -
  have at_t: "length (snd (getRecentEventIds b t)) \<le> 100" using assms by blast
  have old: "isClient (browser b) \<Longrightarrow> \<not> getItem_throws (browser b) \<Longrightarrow>
     map_of (localStorage (browser b)) ''recent_event_ids'' = Some (Json item) \<Longrightarrow>
     \<not> is_expired item u \<Longrightarrow> item_value item = Ids ids \<Longrightarrow> length ids \<le> 100" for item ids
    using assms [rule_format, of u] unfolding raw_read_bound by blast
  show ?thesis
    unfolding raw_read_bound
    using at_t old
    by (auto simp: markEventProcessed_state SafeStorage_setItem_localStorage
        SafeStorage_getItem_localStorage update_conv' delete_conv' split: if_splits)
qed

lemma fold_marks_keep_bound:
  "\<forall>u. length (snd (getRecentEventIds b u)) \<le> 100 \<Longrightarrow>
   length (snd (getRecentEventIds (fold (\<lambda>(t, d) s. markEventProcessed s t d) calls b) u)) \<le> 100"
proof (induction calls arbitrary: b)
  case Nil
  then show ?case by simp
next
  case (Cons c calls)
  obtain t d where c: "c = (t, d)" by (cases c)
  have "\<forall>u. length (snd (getRecentEventIds (markEventProcessed b t d) u)) \<le> 100"
    using Cons.prems markEventProcessed_keeps_bound by blast
  from Cons.IH [OF this] show ?case by (simp add: c)
qed



text \<open>
  C10. \<^verbatim>\<open>markEventProcessed\<close> appends the key and drops the oldest entry once the
  list is longer than 100; so when the buffer starts with at most 100 entries (it starts
  absent), it holds at most 100 after any sequence of calls, at whatever times they run
  and whenever it is read.
\<close>

theorem recent_ids_at_most_100:
  "(isClient (browser b) \<and> \<not> getItem_throws (browser b) \<and> \<not> setItem_throws (browser b) \<longrightarrow>
      snd (getRecentEventIds (markEventProcessed b t d) t) =
        (if length (snd (getRecentEventIds b t)) + 1 > 100
         then tl (snd (getRecentEventIds b t) @ [d])
         else snd (getRecentEventIds b t) @ [d]))
   \<and> ((\<forall>u. length (snd (getRecentEventIds b u)) \<le> 100) \<longrightarrow>
        (\<forall>u. length (snd (getRecentEventIds
                 (fold (\<lambda>(t, d) s. markEventProcessed s t d) calls b) u)) \<le> 100))"
  using markEventProcessed_appends [of b t d] fold_marks_keep_bound [of b calls]
  by blast

theorem recent_ids_at_most_100_witness:
  "isClient (browser full_buffer_bus) \<and> \<not> getItem_throws (browser full_buffer_bus)
   \<and> \<not> setItem_throws (browser full_buffer_bus)
   \<and> snd (getRecentEventIds full_buffer_bus 5) = replicate 100 ''x''
   \<and> snd (getRecentEventIds (markEventProcessed full_buffer_bus 5 ''new'') 5)
       = tl (replicate 100 ''x'' @ [''new''])
   \<and> (\<forall>u. length (snd (getRecentEventIds full_buffer_bus u)) \<le> 100)
   \<and> (\<forall>u. length (snd (getRecentEventIds
          (fold (\<lambda>(t, d) s. markEventProcessed s t d) [(5, ''new''), (9, ''newer'')]
             full_buffer_bus) u)) \<le> 100)"
proof -
  have flags: "isClient (browser full_buffer_bus) \<and> \<not> getItem_throws (browser full_buffer_bus)
      \<and> \<not> setItem_throws (browser full_buffer_bus)"
    by (simp add: full_buffer_bus_def fresh_bus_def working_browser_def)
  have rd: "snd (getRecentEventIds full_buffer_bus u) = replicate 100 ''x''" for u
    by (simp add: getRecentEventIds_result SafeStorage_getItem_result full_buffer_bus_def
        fresh_bus_def working_browser_def is_expired_def)
  have bound: "\<forall>u. length (snd (getRecentEventIds full_buffer_bus u)) \<le> 100"
    by (simp add: rd)
  note step = recent_ids_at_most_100 [of full_buffer_bus 5 "''new''"
      "[(5, ''new''), (9, ''newer'')]"]
  from step flags have
    "snd (getRecentEventIds (markEventProcessed full_buffer_bus 5 ''new'') 5)
       = tl (replicate 100 ''x'' @ [''new''])"
    by (simp add: rd)
  moreover from step bound have
    "\<forall>u. length (snd (getRecentEventIds
          (fold (\<lambda>(t, d) s. markEventProcessed s t d) [(5, ''new''), (9, ''newer'')]
             full_buffer_bus) u)) \<le> 100"
    by blast
  ultimately show ?thesis using flags rd bound by blast
qed

section \<open>Properties of the offline queue\<close>

lemma getEventQueue_result:
  "snd (getEventQueue b t) =
     (case snd (SafeStorage_getItem (browser b) t ''event_queue'') of
        Some (Queue q) \<Rightarrow> q | _ \<Rightarrow> [])"
  by (simp add: getEventQueue_def split: prod.splits option.splits stored.splits)

lemma getEventQueue_state:
  "fst (getEventQueue b t) =
     b\<lparr>browser := fst (SafeStorage_getItem (browser b) t ''event_queue'')\<rparr>"
  by (simp add: getEventQueue_def split: prod.splits option.splits stored.splits)

lemma queueEvent_state:
  "queueEvent b e ev =
     b\<lparr>browser :=
         SafeStorage_setItem (fst (SafeStorage_getItem (browser b) (now e) ''event_queue''))
           (now e) ''event_queue''
           (Queue (enqueue (maxQueueSize (config b)) (snd (getEventQueue b (now e)))
                     (fresh_entry e ev)))
           (Some 24)\<rparr>"
  by (auto simp: queueEvent_def saveEventQueue_def Let_def getEventQueue_def enqueue_def
      fresh_entry_def split: prod.splits option.splits stored.splits)

lemma queueEvent_frame [simp]:
  "config (queueEvent b e ev) = config b"
  "adapters (queueEvent b e ev) = adapters b"
  "listeners (queueEvent b e ev) = listeners b"
  "isOnline (queueEvent b e ev) = isOnline b"
  "track_calls (queueEvent b e ev) = track_calls b"
  "listener_calls (queueEvent b e ev) = listener_calls b"
  "isClient (browser (queueEvent b e ev)) = isClient (browser b)"
  "getItem_throws (browser (queueEvent b e ev)) = getItem_throws (browser b)"
  "setItem_throws (browser (queueEvent b e ev)) = setItem_throws (browser b)"
  by (simp_all add: queueEvent_state)

lemma queueEvent_enqueues:
  assumes "isClient (browser b)" "\<not> getItem_throws (browser b)" "\<not> setItem_throws (browser b)"
    and "u \<le> now e + 86400000"
  shows "snd (getEventQueue (queueEvent b e ev) u) =
           enqueue (maxQueueSize (config b)) (snd (getEventQueue b (now e))) (fresh_entry e ev)"
  using assms
  by (subst getEventQueue_result)
     (simp add: queueEvent_state read_after_write ttl_expiry_def)

lemma raw_queue_bound:
  "int (length (snd (getEventQueue b u))) \<le> cap \<longleftrightarrow>
     (isClient (browser b) \<and> \<not> getItem_throws (browser b) \<longrightarrow>
       (\<forall>item q. map_of (localStorage (browser b)) ''event_queue'' = Some (Json item)
           \<longrightarrow> \<not> is_expired item u \<longrightarrow> item_value item = Queue q \<longrightarrow> int (length q) \<le> cap))
     \<and> 0 \<le> cap"
  by (auto simp: getEventQueue_result SafeStorage_getItem_result
      split: option.splits stored_text.splits stored.splits)

lemma enqueue_bound:
  "1 \<le> cap \<Longrightarrow> int (length queue) \<le> cap \<Longrightarrow> int (length (enqueue cap queue q)) \<le> cap"
  by (cases queue) (auto simp: enqueue_def)

lemma queueEvent_keeps_bound:
  assumes cap: "1 \<le> maxQueueSize (config b)"
    and "\<forall>u. int (length (snd (getEventQueue b u))) \<le> maxQueueSize (config b)"
  shows "int (length (snd (getEventQueue (queueEvent b e ev) u))) \<le> maxQueueSize (config b)"
proof -
  have "int (length (snd (getEventQueue b (now e)))) \<le> maxQueueSize (config b)"
    using assms by blast
  then have new: "int (length (enqueue (maxQueueSize (config b)) (snd (getEventQueue b (now e)))
      (fresh_entry e ev))) \<le> maxQueueSize (config b)"
    using cap by (simp add: enqueue_bound)
  have old: "isClient (browser b) \<Longrightarrow> \<not> getItem_throws (browser b) \<Longrightarrow>
     map_of (localStorage (browser b)) ''event_queue'' = Some (Json item) \<Longrightarrow>
     \<not> is_expired item u \<Longrightarrow> item_value item = Queue q \<Longrightarrow>
     int (length q) \<le> maxQueueSize (config b)" for item q
    using assms(2) [rule_format, of u] unfolding raw_queue_bound by blast
  show ?thesis
    unfolding raw_queue_bound
    using new old cap
    by (auto simp: queueEvent_state SafeStorage_setItem_localStorage
        SafeStorage_getItem_localStorage update_conv' delete_conv' split: if_splits)
qed

lemma enqueue_as_drop:
  assumes "1 \<le> cap" "int (length queue) \<le> cap"
  shows "enqueue cap queue q = drop (length (queue @ [q]) - nat cap) (queue @ [q])"
proof (cases "int (length queue) \<ge> cap")
  case True
  with assms have len: "length queue = nat cap" by linarith
  with assms have "queue \<noteq> []" by auto
  then obtain x xs where q: "queue = x # xs" by (cases queue) auto
  show ?thesis using True len by (simp add: enqueue_def q)
next
  case False
  then have "length queue + 1 - nat cap = 0" by linarith
  with False show ?thesis by (simp add: enqueue_def)
qed

lemma foldl_enqueue:
  assumes "1 \<le> cap"
  shows "int (length queue) \<le> cap \<Longrightarrow>
         foldl (enqueue cap) queue qs = drop (length (queue @ qs) - nat cap) (queue @ qs)"
proof (induction qs arbitrary: queue)
  case Nil
  then have "length queue - nat cap = 0" by linarith
  then show ?case by simp
next
  case (Cons q qs)
  let ?d = "length (queue @ [q]) - nat cap"
  let ?X = "queue @ q # qs"
  have e: "enqueue cap queue q = drop ?d (queue @ [q])"
    using assms Cons.prems by (rule enqueue_as_drop)
  have b: "int (length (enqueue cap queue q)) \<le> cap"
    using assms Cons.prems by (rule enqueue_bound)
  have z: "Suc 0 - nat cap = 0" using assms by linarith
  have le: "length queue \<le> nat cap" using Cons.prems by linarith
  have idx: "length (drop ?d ?X) - nat cap + ?d = length ?X - nat cap"
    using le z by (simp; arith)
  have "foldl (enqueue cap) queue (q # qs) = foldl (enqueue cap) (enqueue cap queue q) qs"
    by simp
  also have "\<dots> = drop (length (enqueue cap queue q @ qs) - nat cap) (enqueue cap queue q @ qs)"
    using Cons.IH [OF b] .
  also have "enqueue cap queue q @ qs = drop ?d ?X"
    using z by (simp add: e)
  also have "drop (length (drop ?d ?X) - nat cap) (drop ?d ?X) = drop (length ?X - nat cap) ?X"
    by (simp only: drop_drop idx)
  finally show ?case .
qed

lemma fold_queueEvent_frame [simp]:
  "config (fold (\<lambda>(e, ev) s. queueEvent s e ev) calls b) = config b"
  "isClient (browser (fold (\<lambda>(e, ev) s. queueEvent s e ev) calls b)) = isClient (browser b)"
  "getItem_throws (browser (fold (\<lambda>(e, ev) s. queueEvent s e ev) calls b))
     = getItem_throws (browser b)"
  "setItem_throws (browser (fold (\<lambda>(e, ev) s. queueEvent s e ev) calls b))
     = setItem_throws (browser b)"
  by (induction calls arbitrary: b; simp split: prod.splits)+

lemma fold_queueEvent:
  assumes "isClient (browser b)" "\<not> getItem_throws (browser b)" "\<not> setItem_throws (browser b)"
  shows "calls \<noteq> [] \<Longrightarrow>
    successively (\<lambda>c c'. now (fst c') \<le> now (fst c) + 86400000) calls \<Longrightarrow>
    u \<le> now (fst (last calls)) + 86400000 \<Longrightarrow>
    snd (getEventQueue (fold (\<lambda>(e, ev) s. queueEvent s e ev) calls b) u) =
      foldl (enqueue (maxQueueSize (config b))) (snd (getEventQueue b (now (fst (hd calls)))))
        (map (\<lambda>(e, ev). fresh_entry e ev) calls)"
  using assms
proof (induction calls arbitrary: b)
  case Nil
  then show ?case by simp
next
  case (Cons c calls)
  obtain e ev where c: "c = (e, ev)" by (cases c)
  show ?case
  proof (cases calls)
    case Nil
    with Cons.prems show ?thesis by (simp add: c queueEvent_enqueues)
  next
    case (Cons c' rest)
    let ?b1 = "queueEvent b e ev"
    have near: "now (fst c') \<le> now e + 86400000"
      using Cons.prems(2) by (simp add: Cons c)
    have "snd (getEventQueue (fold (\<lambda>(e, ev) s. queueEvent s e ev) calls ?b1) u) =
      foldl (enqueue (maxQueueSize (config ?b1))) (snd (getEventQueue ?b1 (now (fst (hd calls)))))
        (map (\<lambda>(e, ev). fresh_entry e ev) calls)"
      using Cons.prems by (intro Cons.IH) (simp_all add: Cons)
    moreover have "snd (getEventQueue ?b1 (now (fst (hd calls)))) =
        enqueue (maxQueueSize (config b)) (snd (getEventQueue b (now e))) (fresh_entry e ev)"
      using Cons.prems near by (simp add: Cons queueEvent_enqueues)
    ultimately show ?thesis by (simp add: c)
  qed
qed

text \<open>
  C6, as stated, fails for \<^verbatim>\<open>maxQueueSize = 0\<close>: \<^verbatim>\<open>shift\<close> on the empty array removes
  nothing, the push still happens, and the queue holds one entry.
\<close>

theorem queue_capacity_zero_counterexample:
  "maxQueueSize (config (offline_bus 0)) = 0
   \<and> snd (getEventQueue (offline_bus 0) 5) = []
   \<and> length (snd (getEventQueue (queueEvent (offline_bus 0) (clock 5) (sample_event ''a'')) 5)) = 1
   \<and> \<not> int (length (snd (getEventQueue
               (queueEvent (offline_bus 0) (clock 5) (sample_event ''a'')) 5)))
         \<le> maxQueueSize (config (queueEvent (offline_bus 0) (clock 5) (sample_event ''a'')))"
  by (simp add: getEventQueue_result queueEvent_state SafeStorage_getItem_result
      SafeStorage_setItem_localStorage SafeStorage_getItem_localStorage offline_bus_def
      fresh_bus_def working_browser_def defaultConfig_def clock_def enqueue_def is_expired_def
      ttl_expiry_def)

text \<open>
  C6, amended. For \<^verbatim>\<open>maxQueueSize\<close> at least 1: a stored queue within the bound stays
  within it after \<^verbatim>\<open>queueEvent\<close>, whenever it is read; on a store that reads and writes,
  enqueuing onto a queue that holds exactly \<^verbatim>\<open>maxQueueSize\<close> entries drops the oldest and
  appends the new one; and enqueuing \<^verbatim>\<open>maxQueueSize + 1\<close> events onto an empty queue, each
  within the queue's 24 hours of the one before, leaves exactly the last
  \<^verbatim>\<open>maxQueueSize\<close> of them.
\<close>

theorem queue_bounded_by_maxQueueSize:
  "(1 \<le> maxQueueSize (config b)
      \<and> (\<forall>u. int (length (snd (getEventQueue b u))) \<le> maxQueueSize (config b)) \<longrightarrow>
      (\<forall>u. int (length (snd (getEventQueue (queueEvent b e ev) u))) \<le> maxQueueSize (config b)))
   \<and> (isClient (browser b) \<and> \<not> getItem_throws (browser b) \<and> \<not> setItem_throws (browser b)
      \<and> 1 \<le> maxQueueSize (config b)
      \<and> int (length (snd (getEventQueue b (now e)))) = maxQueueSize (config b) \<longrightarrow>
      snd (getEventQueue (queueEvent b e ev) (now e)) =
        tl (snd (getEventQueue b (now e)))
          @ [\<lparr>event = ev, attempts = 0, queued_created_at = now e, next_retry_at = None\<rparr>])
   \<and> (isClient (browser b) \<and> \<not> getItem_throws (browser b) \<and> \<not> setItem_throws (browser b)
      \<and> 1 \<le> maxQueueSize (config b)
      \<and> int (length calls) = maxQueueSize (config b) + 1
      \<and> snd (getEventQueue b (now (fst (hd calls)))) = []
      \<and> successively (\<lambda>c c'. now (fst c') \<le> now (fst c) + 86400000) calls
      \<and> u \<le> now (fst (last calls)) + 86400000 \<longrightarrow>
      snd (getEventQueue (fold (\<lambda>(e, ev) s. queueEvent s e ev) calls b) u) =
        map (\<lambda>(e, ev). \<lparr>event = ev, attempts = 0, queued_created_at = now e,
                         next_retry_at = None\<rparr>) (tl calls)
      \<and> int (length (snd (getEventQueue (fold (\<lambda>(e, ev) s. queueEvent s e ev) calls b) u)))
          = maxQueueSize (config b))"
proof (intro conjI impI)
  assume "1 \<le> maxQueueSize (config b)
      \<and> (\<forall>u. int (length (snd (getEventQueue b u))) \<le> maxQueueSize (config b))"
  then show "\<forall>u. int (length (snd (getEventQueue (queueEvent b e ev) u))) \<le> maxQueueSize (config b)"
    using queueEvent_keeps_bound by blast
next
  assume a: "isClient (browser b) \<and> \<not> getItem_throws (browser b) \<and> \<not> setItem_throws (browser b)
      \<and> 1 \<le> maxQueueSize (config b)
      \<and> int (length (snd (getEventQueue b (now e)))) = maxQueueSize (config b)"
  then have "snd (getEventQueue (queueEvent b e ev) (now e)) =
      enqueue (maxQueueSize (config b)) (snd (getEventQueue b (now e))) (fresh_entry e ev)"
    by (simp add: queueEvent_enqueues)
  with a show "snd (getEventQueue (queueEvent b e ev) (now e)) =
        tl (snd (getEventQueue b (now e)))
          @ [\<lparr>event = ev, attempts = 0, queued_created_at = now e, next_retry_at = None\<rparr>]"
    by (simp add: enqueue_def fresh_entry_def)
next
  assume a: "isClient (browser b) \<and> \<not> getItem_throws (browser b) \<and> \<not> setItem_throws (browser b)
      \<and> 1 \<le> maxQueueSize (config b)
      \<and> int (length calls) = maxQueueSize (config b) + 1
      \<and> snd (getEventQueue b (now (fst (hd calls)))) = []
      \<and> successively (\<lambda>c c'. now (fst c') \<le> now (fst c) + 86400000) calls
      \<and> u \<le> now (fst (last calls)) + 86400000"
  then have ne: "calls \<noteq> []" by auto
  have len: "length calls - nat (maxQueueSize (config b)) = 1" using a by linarith
  have "snd (getEventQueue (fold (\<lambda>(e, ev) s. queueEvent s e ev) calls b) u) =
      foldl (enqueue (maxQueueSize (config b))) [] (map (\<lambda>(e, ev). fresh_entry e ev) calls)"
    using a ne fold_queueEvent [of b calls u] by simp
  also have "\<dots> = drop 1 (map (\<lambda>(e, ev). fresh_entry e ev) calls)"
    using a len by (simp add: foldl_enqueue)
  also have "\<dots> = map (\<lambda>(e, ev). \<lparr>event = ev, attempts = 0, queued_created_at = now e,
                         next_retry_at = None\<rparr>) (tl calls)"
    by (simp add: drop_Suc map_tl fresh_entry_def)
  finally show r: "snd (getEventQueue (fold (\<lambda>(e, ev) s. queueEvent s e ev) calls b) u) =
        map (\<lambda>(e, ev). \<lparr>event = ev, attempts = 0, queued_created_at = now e,
                         next_retry_at = None\<rparr>) (tl calls)" .
  show "int (length (snd (getEventQueue (fold (\<lambda>(e, ev) s. queueEvent s e ev) calls b) u)))
          = maxQueueSize (config b)"
    using a by (simp add: r)
qed

lemma offline_bus_simps [simp]:
  "isClient (browser (offline_bus cap))" "\<not> getItem_throws (browser (offline_bus cap))"
  "\<not> setItem_throws (browser (offline_bus cap))" "maxQueueSize (config (offline_bus cap)) = cap"
  "snd (getEventQueue (offline_bus cap) u) = []"
  by (simp_all add: offline_bus_def fresh_bus_def working_browser_def defaultConfig_def
      getEventQueue_result SafeStorage_getItem_result)

theorem queue_bounded_by_maxQueueSize_witness:
  "(\<forall>u. int (length (snd (getEventQueue (offline_bus 2) u))) \<le> 2)
   \<and> (\<forall>u. int (length (snd (getEventQueue
            (queueEvent (offline_bus 2) (clock 5) (sample_event ''a'')) u))) \<le> 2)
   \<and> snd (getEventQueue (queueEvent (offline_bus 1) (clock 0) (sample_event ''a'')) 5)
       = [\<lparr>event = sample_event ''a'', attempts = 0, queued_created_at = 0, next_retry_at = None\<rparr>]
   \<and> snd (getEventQueue
         (queueEvent (queueEvent (offline_bus 1) (clock 0) (sample_event ''a''))
            (clock 5) (sample_event ''b'')) 5)
       = [\<lparr>event = sample_event ''b'', attempts = 0, queued_created_at = 5, next_retry_at = None\<rparr>]
   \<and> snd (getEventQueue
         (fold (\<lambda>(e, ev) s. queueEvent s e ev)
            [(clock 0, sample_event ''a''), (clock 10, sample_event ''b''),
             (clock 20, sample_event ''c'')] (offline_bus 2)) 20)
       = [\<lparr>event = sample_event ''b'', attempts = 0, queued_created_at = 10, next_retry_at = None\<rparr>,
          \<lparr>event = sample_event ''c'', attempts = 0, queued_created_at = 20, next_retry_at = None\<rparr>]"
proof -
  let ?a = "sample_event ''a''" and ?b = "sample_event ''b''" and ?c = "sample_event ''c''"
  let ?one = "queueEvent (offline_bus 1) (clock 0) ?a"
  let ?calls = "[(clock 0, ?a), (clock 10, ?b), (clock 20, ?c)]"
  have t: "now (clock t) = t" for t by (simp add: clock_def)
  have h1: "\<forall>u. int (length (snd (getEventQueue (offline_bus 2) u))) \<le> 2" by simp
  from queue_bounded_by_maxQueueSize [of "offline_bus 2" "clock 5" ?a "[]" 0] h1
  have c1: "\<forall>u. int (length (snd (getEventQueue (queueEvent (offline_bus 2) (clock 5) ?a) u))) \<le> 2"
    by simp
  have one: "snd (getEventQueue ?one 5)
       = [\<lparr>event = ?a, attempts = 0, queued_created_at = 0, next_retry_at = None\<rparr>]"
    by (simp add: queueEvent_enqueues t enqueue_def fresh_entry_def)
  from queue_bounded_by_maxQueueSize [of ?one "clock 5" ?b "[]" 0] one
  have c2: "snd (getEventQueue (queueEvent ?one (clock 5) ?b) 5)
       = [\<lparr>event = ?b, attempts = 0, queued_created_at = 5, next_retry_at = None\<rparr>]"
    by (simp add: t)
  from queue_bounded_by_maxQueueSize [of "offline_bus 2" "clock 5" ?a ?calls 20]
  have c3: "snd (getEventQueue (fold (\<lambda>(e, ev) s. queueEvent s e ev) ?calls (offline_bus 2)) 20)
       = [\<lparr>event = ?b, attempts = 0, queued_created_at = 10, next_retry_at = None\<rparr>,
          \<lparr>event = ?c, attempts = 0, queued_created_at = 20, next_retry_at = None\<rparr>]"
    by (simp add: t)
  from h1 c1 one c2 c3 show ?thesis by blast
qed

section \<open>Properties of adapter dispatch\<close>

lemma getItem_getItem:
  "snd (SafeStorage_getItem (fst (SafeStorage_getItem b t k)) t k') = snd (SafeStorage_getItem b t k')"
  by (auto simp: SafeStorage_getItem_result SafeStorage_getItem_localStorage delete_conv'
      split: option.splits stored_text.splits)

lemma getItem_other_key:
  "k' \<noteq> k \<Longrightarrow>
   snd (SafeStorage_getItem (fst (SafeStorage_getItem b t k)) u k') = snd (SafeStorage_getItem b u k')"
  by (auto simp: SafeStorage_getItem_result SafeStorage_getItem_localStorage delete_conv'
      split: option.splits stored_text.splits)

lemma setItem_other_key:
  "k' \<noteq> k \<Longrightarrow>
   snd (SafeStorage_getItem (SafeStorage_setItem b t k v ttl) u k') = snd (SafeStorage_getItem b u k')"
  by (auto simp: SafeStorage_getItem_result SafeStorage_setItem_localStorage update_conv'
      split: option.splits stored_text.splits)

lemma markEventProcessed_frame [simp]:
  "config (markEventProcessed b t d) = config b"
  "adapters (markEventProcessed b t d) = adapters b"
  "listeners (markEventProcessed b t d) = listeners b"
  "isOnline (markEventProcessed b t d) = isOnline b"
  "track_calls (markEventProcessed b t d) = track_calls b"
  "listener_calls (markEventProcessed b t d) = listener_calls b"
  "isClient (browser (markEventProcessed b t d)) = isClient (browser b)"
  "getItem_throws (browser (markEventProcessed b t d)) = getItem_throws (browser b)"
  "setItem_throws (browser (markEventProcessed b t d)) = setItem_throws (browser b)"
  by (simp_all add: markEventProcessed_state)

lemma markEventProcessed_queue [simp]:
  "snd (getEventQueue (markEventProcessed b t d) u) = snd (getEventQueue b u)"
  by (simp add: getEventQueue_result markEventProcessed_state setItem_other_key
      getItem_other_key)

lemma queueEvent_recent_ids [simp]:
  "snd (getRecentEventIds (queueEvent b e ev) u) = snd (getRecentEventIds b u)"
  by (simp add: getRecentEventIds_result queueEvent_state setItem_other_key getItem_other_key)

lemma deliver_frame [simp]:
  "config (deliver e ev a b) = config b"
  "adapters (deliver e ev a b) = adapters b"
  "listeners (deliver e ev a b) = listeners b"
  "isOnline (deliver e ev a b) = isOnline b"
  "listener_calls (deliver e ev a b) = listener_calls b"
  "isClient (browser (deliver e ev a b)) = isClient (browser b)"
  "getItem_throws (browser (deliver e ev a b)) = getItem_throws (browser b)"
  "setItem_throws (browser (deliver e ev a b)) = setItem_throws (browser b)"
  by (simp_all add: deliver_def adapter_failed_def console_error_def Let_def
      split: sum.splits bool.splits)

lemma deliver_track_calls:
  "track_calls (deliver e ev a b) =
     track_calls b @ (if granted ev a then [(name a, ev)] else [])"
  by (simp add: deliver_def adapter_failed_def console_error_def Let_def granted_def
      split: sum.splits bool.splits)

lemma queueEvent_browser_cong:
  "browser b' = browser b \<Longrightarrow> config b' = config b \<Longrightarrow>
   browser (queueEvent b' e ev) = browser (queueEvent b e ev)"
  by (simp add: queueEvent_state getEventQueue_result)

lemma deliver_browser:
  "browser (deliver e ev a b) =
     (if raises ev a \<and> enableOfflineQueue (config b) then browser (queueEvent b e ev)
      else browser b)"
  by (auto simp: deliver_def adapter_failed_def console_error_def Let_def granted_def
      raises_def intro!: queueEvent_browser_cong split: sum.splits bool.splits)

lemma getEventQueue_cong:
  "browser b' = browser b \<Longrightarrow> snd (getEventQueue b' u) = snd (getEventQueue b u)"
  by (simp add: getEventQueue_result)

lemma getRecentEventIds_cong:
  "browser b' = browser b \<Longrightarrow> snd (getRecentEventIds b' u) = snd (getRecentEventIds b u)"
  by (simp add: getRecentEventIds_result)

lemma deliver_recent_ids [simp]:
  "snd (getRecentEventIds (deliver e ev a b) u) = snd (getRecentEventIds b u)"
proof (cases "raises ev a \<and> enableOfflineQueue (config b)")
  case True
  then have "browser (deliver e ev a b) = browser (queueEvent b e ev)"
    by (simp add: deliver_browser)
  then have "snd (getRecentEventIds (deliver e ev a b) u)
      = snd (getRecentEventIds (queueEvent b e ev) u)"
    by (rule getRecentEventIds_cong)
  then show ?thesis by simp
next
  case False
  then have "browser (deliver e ev a b) = browser b"
    by (auto simp: deliver_browser)
  then show ?thesis by (rule getRecentEventIds_cong)
qed

lemma fold_deliver_frame [simp]:
  "config (fold (deliver e ev) as b) = config b"
  "adapters (fold (deliver e ev) as b) = adapters b"
  "listeners (fold (deliver e ev) as b) = listeners b"
  "isOnline (fold (deliver e ev) as b) = isOnline b"
  "listener_calls (fold (deliver e ev) as b) = listener_calls b"
  "isClient (browser (fold (deliver e ev) as b)) = isClient (browser b)"
  "getItem_throws (browser (fold (deliver e ev) as b)) = getItem_throws (browser b)"
  "setItem_throws (browser (fold (deliver e ev) as b)) = setItem_throws (browser b)"
  "snd (getRecentEventIds (fold (deliver e ev) as b) u) = snd (getRecentEventIds b u)"
  by (induction as arbitrary: b; simp)+

lemma fold_deliver_track_calls:
  "track_calls (fold (deliver e ev) as b) =
     track_calls b @ map (\<lambda>a. (name a, ev)) (filter (granted ev) as)"
  by (induction as arbitrary: b) (simp_all add: deliver_track_calls)

lemma deliver_queue:
  assumes "isClient (browser b)" "\<not> getItem_throws (browser b)" "\<not> setItem_throws (browser b)"
    and "enableOfflineQueue (config b)"
  shows "snd (getEventQueue (deliver e ev a b) (now e)) =
           (if raises ev a
            then enqueue (maxQueueSize (config b)) (snd (getEventQueue b (now e))) (fresh_entry e ev)
            else snd (getEventQueue b (now e)))"
proof (cases "raises ev a")
  case True
  with assms have "browser (deliver e ev a b) = browser (queueEvent b e ev)"
    by (simp add: deliver_browser)
  then have "snd (getEventQueue (deliver e ev a b) (now e))
      = snd (getEventQueue (queueEvent b e ev) (now e))"
    by (rule getEventQueue_cong)
  with True assms show ?thesis by (simp add: queueEvent_enqueues)
next
  case False
  then have "browser (deliver e ev a b) = browser b"
    by (simp add: deliver_browser)
  then have "snd (getEventQueue (deliver e ev a b) (now e)) = snd (getEventQueue b (now e))"
    by (rule getEventQueue_cong)
  with False show ?thesis by simp
qed

lemma fold_deliver_queue:
  assumes "isClient (browser b)" "\<not> getItem_throws (browser b)" "\<not> setItem_throws (browser b)"
    and "enableOfflineQueue (config b)"
  shows "snd (getEventQueue (fold (deliver e ev) as b) (now e)) =
           foldl (enqueue (maxQueueSize (config b))) (snd (getEventQueue b (now e)))
             (replicate (length (filter (raises ev) as)) (fresh_entry e ev))"
  using assms
proof (induction as arbitrary: b)
  case Nil
  then show ?case by simp
next
  case (Cons a as)
  have "snd (getEventQueue (fold (deliver e ev) as (deliver e ev a b)) (now e)) =
           foldl (enqueue (maxQueueSize (config (deliver e ev a b))))
             (snd (getEventQueue (deliver e ev a b) (now e)))
             (replicate (length (filter (raises ev) as)) (fresh_entry e ev))"
    using Cons.prems by (intro Cons.IH) simp_all
  then show ?case using Cons.prems by (simp add: deliver_queue)
qed

lemma processEvent_state:
  "fst (processEvent b e ev) =
     markEventProcessed (fold (deliver e ev) (adapters b) b) (now e) (dedup_id ev)"
  by (simp add: processEvent_def Let_def)

lemma count_granted:
  "distinct (map name as) \<Longrightarrow> a \<in> set as \<Longrightarrow>
   count_list (map (\<lambda>x. (name x, ev)) (filter P as)) (name a, ev) = (if P a then 1 else 0)"
proof (induction as)
  case Nil
  then show ?case by simp
next
  case (Cons x xs)
  show ?case
  proof (cases "x = a")
    case True
    have "name a \<notin> name ` set xs" using Cons.prems True by simp
    then have "(name a, ev) \<notin> set (map (\<lambda>x. (name x, ev)) (filter P xs))" by auto
    then have "count_list (map (\<lambda>x. (name x, ev)) (filter P xs)) (name a, ev) = 0"
      using count_list_0_iff by fastforce
    with True show ?thesis by simp
  next
    case False
    with Cons.prems have "a \<in> set xs" and "name x \<noteq> name a" by auto
    with Cons show ?thesis by simp
  qed
qed

text \<open>
  C3. \<^verbatim>\<open>processEvent\<close> completes normally whichever adapters raise, so an adapter's
  error stays with that adapter. In that pass every registered adapter that the fan-out's
  consent rule lets through (its \<^verbatim>\<open>checkConsent\<close> grants the event) receives the event
  exactly once, the raising adapter's neighbours included; an adapter whose
  \<^verbatim>\<open>checkConsent\<close> declines the event is skipped, with or without a failure elsewhere.
  When exactly one adapter raises, the offline queue is enabled and the store reads and
  writes, the event is appended to the stored queue (after the oldest entry is dropped
  from a full queue).
\<close>

theorem dispatch_isolates_failures:
  "snd (processEvent b e ev) = Inr ()
   \<and> track_calls (fst (processEvent b e ev)) =
       track_calls b @ map (\<lambda>a. (name a, ev)) (filter (granted ev) (adapters b))
   \<and> (distinct (map name (adapters b)) \<and> a \<in> set (adapters b) \<longrightarrow>
        count_list (drop (length (track_calls b)) (track_calls (fst (processEvent b e ev))))
          (name a, ev) = (if granted ev a then 1 else 0))
   \<and> (isClient (browser b) \<and> \<not> getItem_throws (browser b) \<and> \<not> setItem_throws (browser b)
        \<and> enableOfflineQueue (config b) \<and> length (filter (raises ev) (adapters b)) = 1 \<longrightarrow>
        snd (getEventQueue (fst (processEvent b e ev)) (now e)) =
          (if int (length (snd (getEventQueue b (now e)))) \<ge> maxQueueSize (config b)
           then tl (snd (getEventQueue b (now e))) else snd (getEventQueue b (now e)))
          @ [\<lparr>event = ev, attempts = 0, queued_created_at = now e, next_retry_at = None\<rparr>])"
proof (intro conjI impI)
  show "snd (processEvent b e ev) = Inr ()" by (rule processEvent_returns)
  show calls: "track_calls (fst (processEvent b e ev)) =
       track_calls b @ map (\<lambda>a. (name a, ev)) (filter (granted ev) (adapters b))"
    by (simp add: processEvent_state fold_deliver_track_calls)
  assume "distinct (map name (adapters b)) \<and> a \<in> set (adapters b)"
  then show "count_list (drop (length (track_calls b)) (track_calls (fst (processEvent b e ev))))
          (name a, ev) = (if granted ev a then 1 else 0)"
    by (simp only: calls append_eq_conv_conj drop_append drop_all order.refl diff_self_eq_0
        drop_0 append_Nil count_granted)
next
  assume a: "isClient (browser b) \<and> \<not> getItem_throws (browser b) \<and> \<not> setItem_throws (browser b)
        \<and> enableOfflineQueue (config b) \<and> length (filter (raises ev) (adapters b)) = 1"
  then have "snd (getEventQueue (fold (deliver e ev) (adapters b) b) (now e)) =
      enqueue (maxQueueSize (config b)) (snd (getEventQueue b (now e))) (fresh_entry e ev)"
    by (simp add: fold_deliver_queue)
  then show "snd (getEventQueue (fst (processEvent b e ev)) (now e)) =
          (if int (length (snd (getEventQueue b (now e)))) \<ge> maxQueueSize (config b)
           then tl (snd (getEventQueue b (now e))) else snd (getEventQueue b (now e)))
          @ [\<lparr>event = ev, attempts = 0, queued_created_at = now e, next_retry_at = None\<rparr>]"
    by (simp add: processEvent_state enqueue_def fresh_entry_def)
qed

theorem dispatch_isolates_failures_witness:
  "distinct (map name (adapters three_adapter_bus))
   \<and> base_adapter ''ga4'' (Inr ()) \<in> set (adapters three_adapter_bus)
   \<and> granted (sample_event ''page_viewed'') (base_adapter ''ga4'' (Inr ()))
   \<and> length (filter (raises (sample_event ''page_viewed'')) (adapters three_adapter_bus)) = 1
   \<and> track_calls (fst (processEvent three_adapter_bus (clock 5) (sample_event ''page_viewed'')))
       = [(''first'', sample_event ''page_viewed''), (''broken'', sample_event ''page_viewed''),
          (''ga4'', sample_event ''page_viewed'')]
   \<and> count_list (track_calls (fst (processEvent three_adapter_bus (clock 5)
          (sample_event ''page_viewed'')))) (''ga4'', sample_event ''page_viewed'') = 1
   \<and> snd (getEventQueue (fst (processEvent three_adapter_bus (clock 5)
          (sample_event ''page_viewed''))) 5)
       = [\<lparr>event = sample_event ''page_viewed'', attempts = 0, queued_created_at = 5,
           next_retry_at = None\<rparr>]"
proof -
  let ?ev = "sample_event ''page_viewed''"
  let ?ga = "base_adapter ''ga4'' (Inr ())"
  have ads: "adapters three_adapter_bus =
      [mock_adapter ''first'' (Inr ()), mock_adapter ''broken'' (Inl AdapterError), ?ga]"
    and tc: "track_calls three_adapter_bus = []"
    and cfg: "enableOfflineQueue (config three_adapter_bus)"
       "maxQueueSize (config three_adapter_bus) = 1000"
    and flags: "isClient (browser three_adapter_bus)" "\<not> getItem_throws (browser three_adapter_bus)"
       "\<not> setItem_throws (browser three_adapter_bus)"
    and q: "snd (getEventQueue three_adapter_bus 5) = []"
    by (simp_all add: three_adapter_bus_def fresh_bus_def defaultConfig_def working_browser_def
        getEventQueue_result SafeStorage_getItem_result)
  have g: "granted ?ev (mock_adapter ''first'' (Inr ()))"
      "granted ?ev (mock_adapter ''broken'' (Inl AdapterError))" "granted ?ev ?ga"
    by (simp_all add: granted_def mock_adapter_def base_adapter_def sample_event_def
        BaseAnalyticsAdapter_checkConsent_def)
  have r: "\<not> raises ?ev (mock_adapter ''first'' (Inr ()))"
      "raises ?ev (mock_adapter ''broken'' (Inl AdapterError))" "\<not> raises ?ev ?ga"
    by (simp_all add: raises_def granted_def mock_adapter_def base_adapter_def sample_event_def
        BaseAnalyticsAdapter_checkConsent_def)
  have names: "distinct (map name (adapters three_adapter_bus))"
    by (simp add: ads mock_adapter_def base_adapter_def)
  have mem: "?ga \<in> set (adapters three_adapter_bus)" by (simp add: ads)
  have one: "length (filter (raises ?ev) (adapters three_adapter_bus)) = 1"
    by (simp add: ads r)
  note T = dispatch_isolates_failures [of three_adapter_bus "clock 5" ?ev ?ga]
  have nm: "name (mock_adapter n out) = n" "name (base_adapter n out) = n" for n out
    by (simp_all add: mock_adapter_def base_adapter_def)
  from T have "track_calls (fst (processEvent three_adapter_bus (clock 5) ?ev)) =
       track_calls three_adapter_bus
         @ map (\<lambda>a. (name a, ?ev)) (filter (granted ?ev) (adapters three_adapter_bus))"
    by blast
  then have c1: "track_calls (fst (processEvent three_adapter_bus (clock 5) ?ev))
       = [(''first'', ?ev), (''broken'', ?ev), (''ga4'', ?ev)]"
    by (simp add: ads tc g nm)
  from T names mem have "count_list (drop (length (track_calls three_adapter_bus))
          (track_calls (fst (processEvent three_adapter_bus (clock 5) ?ev)))) (name ?ga, ?ev)
        = (if granted ?ev ?ga then 1 else 0)"
    by blast
  then have c2: "count_list (track_calls (fst (processEvent three_adapter_bus (clock 5)
          ?ev))) (name ?ga, ?ev) = 1"
    by (simp only: tc g(3) list.size drop_0 if_True)
  then have c2': "count_list (track_calls (fst (processEvent three_adapter_bus (clock 5)
          ?ev))) (''ga4'', ?ev) = 1"
    by (simp only: nm)
  from T flags cfg(1) one have "snd (getEventQueue (fst (processEvent three_adapter_bus (clock 5)
          ?ev)) (now (clock 5))) =
          (if int (length (snd (getEventQueue three_adapter_bus (now (clock 5)))))
                \<ge> maxQueueSize (config three_adapter_bus)
           then tl (snd (getEventQueue three_adapter_bus (now (clock 5))))
           else snd (getEventQueue three_adapter_bus (now (clock 5))))
          @ [\<lparr>event = ?ev, attempts = 0, queued_created_at = now (clock 5),
              next_retry_at = None\<rparr>]"
    by blast
  then have c3: "snd (getEventQueue (fst (processEvent three_adapter_bus (clock 5)
          ?ev)) 5)
       = [\<lparr>event = ?ev, attempts = 0, queued_created_at = 5, next_retry_at = None\<rparr>]"
    by (simp add: clock_def q cfg(2))
  from names mem g(3) one c1 c2' c3 show ?thesis by blast
qed

section \<open>Properties of the queue drain\<close>

text \<open>
  \<^verbatim>\<open>processEvent\<close> never raises, so the \<^verbatim>\<open>catch\<close> of the drain loop (increment
  \<^verbatim>\<open>attempts\<close>, set \<^verbatim>\<open>next_retry_at\<close>, push back) is never entered: an entry whose retry
  time has come leaves the local queue whatever its delivery did.
\<close>

lemma drain_result:
  "drain batch queue b e =
     (rev (filter (\<lambda>q. retry_later q (now e)) batch) @ queue,
      fold (\<lambda>q s. if retry_later q (now e) then s else fst (processEvent s e (event q))) batch b)"
  by (induction batch arbitrary: queue b) (simp_all add: processEvent_def Let_def)

lemma processEvent_frame [simp]:
  "config (fst (processEvent b e ev)) = config b"
  "adapters (fst (processEvent b e ev)) = adapters b"
  "listeners (fst (processEvent b e ev)) = listeners b"
  "isOnline (fst (processEvent b e ev)) = isOnline b"
  "listener_calls (fst (processEvent b e ev)) = listener_calls b"
  "isClient (browser (fst (processEvent b e ev))) = isClient (browser b)"
  "getItem_throws (browser (fst (processEvent b e ev))) = getItem_throws (browser b)"
  "setItem_throws (browser (fst (processEvent b e ev))) = setItem_throws (browser b)"
  by (simp_all add: processEvent_state)

lemma fold_processEvent_frame [simp]:
  "isClient (browser (fold (\<lambda>q s. if P q then s else fst (processEvent s e (event q))) batch b))
     = isClient (browser b)"
  "getItem_throws (browser (fold (\<lambda>q s. if P q then s else fst (processEvent s e (event q))) batch b))
     = getItem_throws (browser b)"
  "setItem_throws (browser (fold (\<lambda>q s. if P q then s else fst (processEvent s e (event q))) batch b))
     = setItem_throws (browser b)"
  by (induction batch arbitrary: b; simp)+

lemma saveEventQueue_read:
  assumes "isClient (browser b)" "\<not> getItem_throws (browser b)" "\<not> setItem_throws (browser b)"
  shows "snd (getEventQueue (saveEventQueue b t q) t) = q"
  using assms
  by (simp add: getEventQueue_result saveEventQueue_def read_after_write ttl_expiry_def)

lemma getEventQueue_frame [simp]:
  "isClient (browser (fst (getEventQueue b t))) = isClient (browser b)"
  "getItem_throws (browser (fst (getEventQueue b t))) = getItem_throws (browser b)"
  "setItem_throws (browser (fst (getEventQueue b t))) = setItem_throws (browser b)"
  "config (fst (getEventQueue b t)) = config b"
  by (simp_all add: getEventQueue_state)

lemma processQueuedEvents_state:
  assumes "isOnline b" "\<not> isProcessing b" "snd (getEventQueue b (now e)) \<noteq> []"
  shows "processQueuedEvents b e =
     (saveEventQueue
        (fold (\<lambda>q s. if retry_later q (now e) then s else fst (processEvent s e (event q)))
           (take (nat (batchSize (config b))) (snd (getEventQueue b (now e))))
           (fst (getEventQueue (b\<lparr>isProcessing := True\<rparr>) (now e))))
        (now e)
        (rev (filter (\<lambda>q. retry_later q (now e))
                (take (nat (batchSize (config b))) (snd (getEventQueue b (now e)))))
         @ drop (nat (batchSize (config b))) (snd (getEventQueue b (now e)))))
     \<lparr>isProcessing := False\<rparr>"
proof -
  define b0 where "b0 = b\<lparr>isProcessing := True\<rparr>"
  define b1 where "b1 = fst (getEventQueue b0 (now e))"
  define queue where "queue = snd (getEventQueue b0 (now e))"
  define n where "n = nat (batchSize (config b))"
  define b2 where "b2 = fold (\<lambda>q s. if retry_later q (now e) then s
                                      else fst (processEvent s e (event q))) (take n queue) b1"
  define q' where "q' = rev (filter (\<lambda>q. retry_later q (now e)) (take n queue)) @ drop n queue"
  have g: "getEventQueue b0 (now e) = (b1, queue)" by (simp add: b1_def queue_def)
  have q: "queue = snd (getEventQueue b (now e))"
    unfolding queue_def b0_def by (rule getEventQueue_cong) simp
  have ne: "queue \<noteq> []" using assms(3) q by simp
  have cf: "config b1 = config b" by (simp add: b1_def b0_def)
  have d: "drain (take n queue) (drop n queue) b1 e = (q', b2)"
    by (simp only: drain_result q'_def b2_def)
  have "processQueuedEvents b e = (saveEventQueue b2 (now e) q')\<lparr>isProcessing := False\<rparr>"
    unfolding processQueuedEvents_def
    using assms(1,2) ne
    by (simp only: b0_def [symmetric] g cf n_def [symmetric] d simp_thms if_False if_True
        prod.case)
  then show ?thesis
    by (simp only: q'_def b2_def b1_def b0_def n_def q [symmetric])
qed

lemma drain_never_retries:
  assumes "isClient (browser b)" "\<not> getItem_throws (browser b)" "\<not> setItem_throws (browser b)"
    and "isOnline b" "\<not> isProcessing b" "snd (getEventQueue b (now e)) \<noteq> []"
  shows "snd (getEventQueue (processQueuedEvents b e) (now e)) =
           rev (filter (\<lambda>q. retry_later q (now e))
                  (take (nat (batchSize (config b))) (snd (getEventQueue b (now e)))))
           @ drop (nat (batchSize (config b))) (snd (getEventQueue b (now e)))"
proof -
  let ?b2 = "fold (\<lambda>q s. if retry_later q (now e) then s else fst (processEvent s e (event q)))
           (take (nat (batchSize (config b))) (snd (getEventQueue b (now e))))
           (fst (getEventQueue (b\<lparr>isProcessing := True\<rparr>) (now e)))"
  have fl2: "isClient (browser ?b2)" "\<not> getItem_throws (browser ?b2)"
    "\<not> setItem_throws (browser ?b2)"
    using assms(1-3) by simp_all
  let ?q' = "rev (filter (\<lambda>q. retry_later q (now e))
                  (take (nat (batchSize (config b))) (snd (getEventQueue b (now e)))))
           @ drop (nat (batchSize (config b))) (snd (getEventQueue b (now e)))"
  have "browser (processQueuedEvents b e) = browser (saveEventQueue ?b2 (now e) ?q')"
    by (simp only: processQueuedEvents_state [OF assms(4-6)]) simp
  then have "snd (getEventQueue (processQueuedEvents b e) (now e))
      = snd (getEventQueue (saveEventQueue ?b2 (now e) ?q') (now e))"
    by (rule getEventQueue_cong)
  also have "\<dots> = ?q'" using fl2 by (rule saveEventQueue_read)
  finally show ?thesis .
qed

lemma saveEventQueue_frame [simp]:
  "track_calls (saveEventQueue b t q) = track_calls b"
  "listener_calls (saveEventQueue b t q) = listener_calls b"
  "config (saveEventQueue b t q) = config b"
  by (simp_all add: saveEventQueue_def)

lemma getEventQueue_logs [simp]:
  "track_calls (fst (getEventQueue b t)) = track_calls b"
  "listener_calls (fst (getEventQueue b t)) = listener_calls b"
  "adapters (fst (getEventQueue b t)) = adapters b"
  by (simp_all add: getEventQueue_state)

lemma processEvent_track_calls:
  "track_calls (fst (processEvent b e ev)) =
     track_calls b @ map (\<lambda>a. (name a, ev)) (filter (granted ev) (adapters b))"
  by (simp add: processEvent_state fold_deliver_track_calls)

text \<open>
  C5 at a failing delivery. One event is queued (no attempt yet, no retry time), the only
  adapter rejects, \<^verbatim>\<open>retryAttempts\<close> is 3. The drain calls the adapter once; the
  adapter's error is caught inside \<^verbatim>\<open>processEvent\<close>, so the drain's own \<^verbatim>\<open>catch\<close> does not
  run: no entry with \<^verbatim>\<open>attempts = 1\<close> and a retry time is written, and the queue the drain
  saves last is empty, which also overwrites the copy \<^verbatim>\<open>queueEvent\<close> had stored. The event
  is gone after one failed attempt.
\<close>

theorem failed_delivery_is_not_retried:
  "snd (getEventQueue retry_bus 5) = [queued_once]
   \<and> attempts queued_once = 0 \<and> next_retry_at queued_once = None
   \<and> retryAttempts (config retry_bus) = 3 \<and> enableOfflineQueue (config retry_bus)
   \<and> adapter_track (mock_adapter ''broken'' (Inl AdapterError)) (event queued_once)
       = Inl AdapterError
   \<and> track_calls (processQueuedEvents retry_bus (clock 5)) = [(''broken'', event queued_once)]
   \<and> snd (getEventQueue (processQueuedEvents retry_bus (clock 5)) 5) = []"
proof -
  have q: "snd (getEventQueue retry_bus 5) = [queued_once]"
    by (simp add: getEventQueue_result SafeStorage_getItem_result retry_bus_def fresh_bus_def
        working_browser_def is_expired_def)
  have fl: "isClient (browser retry_bus)" "\<not> getItem_throws (browser retry_bus)"
    "\<not> setItem_throws (browser retry_bus)" "isOnline retry_bus" "\<not> isProcessing retry_bus"
    and cfg: "retryAttempts (config retry_bus) = 3" "enableOfflineQueue (config retry_bus)"
      "batchSize (config retry_bus) = 10"
    and ads: "adapters retry_bus = [mock_adapter ''broken'' (Inl AdapterError)]"
    and tc: "track_calls retry_bus = []"
    by (simp_all add: retry_bus_def fresh_bus_def working_browser_def defaultConfig_def)
  have t: "now (clock 5) = 5" by (simp add: clock_def)
  have ne: "snd (getEventQueue retry_bus (now (clock 5))) \<noteq> []" by (simp add: t q)
  have rl: "\<not> retry_later queued_once 5" by (simp add: retry_later_def queued_once_def)
  have gr: "granted (event queued_once) (mock_adapter ''broken'' (Inl AdapterError))"
    by (simp add: granted_def mock_adapter_def)
  have nm: "name (mock_adapter ''broken'' (Inl AdapterError)) = ''broken''"
    by (simp add: mock_adapter_def)
  have calls: "track_calls (processQueuedEvents retry_bus (clock 5)) = [(''broken'', event queued_once)]"
    by (simp only: processQueuedEvents_state [OF fl(4,5) ne])
       (simp add: t q cfg rl processEvent_track_calls ads tc gr nm)
  have "snd (getEventQueue (processQueuedEvents retry_bus (clock 5)) (now (clock 5))) =
           rev (filter (\<lambda>q. retry_later q (now (clock 5)))
                  (take (nat (batchSize (config retry_bus)))
                     (snd (getEventQueue retry_bus (now (clock 5))))))
           @ drop (nat (batchSize (config retry_bus))) (snd (getEventQueue retry_bus (now (clock 5))))"
    using fl(1-3) fl(4,5) ne by (rule drain_never_retries)
  then have lost: "snd (getEventQueue (processQueuedEvents retry_bus (clock 5)) 5) = []"
    by (simp add: t q cfg rl)
  show ?thesis
    using q cfg calls lost
    by (simp add: queued_once_def mock_adapter_def)
qed

section \<open>Properties of enrichment and deduplication\<close>

lemma stored_id_state:
  "fst (stored_id b t k) = b\<lparr>browser := fst (SafeStorage_getItem (browser b) t k)\<rparr>"
  by (simp add: stored_id_def split: prod.splits option.splits stored.splits)

lemma enrichEvent_state:
  "fst (enrichEvent b e ed) =
     b\<lparr>browser :=
         (case generateEventId e of
            Inl err \<Rightarrow> browser b
          | Inr new_id \<Rightarrow>
              (let br1 = (if truthy_field (p_visitor_id ed) then browser b
                          else fst (SafeStorage_getItem (browser b) (now e) ''visitor_id''))
               in if truthy_field (p_session_id ed) then br1
                  else fst (SafeStorage_getItem br1 (now e) ''session_id'')))\<rparr>"
  by (simp add: enrichEvent_def getVisitorId_def getSessionId_def stored_id_state Let_def
      case_prod_beta split: sum.splits)

lemma enrichEvent_frame [simp]:
  "config (fst (enrichEvent b e ed)) = config b"
  "adapters (fst (enrichEvent b e ed)) = adapters b"
  "listeners (fst (enrichEvent b e ed)) = listeners b"
  "isOnline (fst (enrichEvent b e ed)) = isOnline b"
  "track_calls (fst (enrichEvent b e ed)) = track_calls b"
  "listener_calls (fst (enrichEvent b e ed)) = listener_calls b"
  "isClient (browser (fst (enrichEvent b e ed))) = isClient (browser b)"
  "getItem_throws (browser (fst (enrichEvent b e ed))) = getItem_throws (browser b)"
  "setItem_throws (browser (fst (enrichEvent b e ed))) = setItem_throws (browser b)"
  by (simp_all add: enrichEvent_state Let_def split: sum.splits)

lemma enrichEvent_reads:
  "snd (SafeStorage_getItem (browser (fst (enrichEvent b e ed))) (now e) k)
     = snd (SafeStorage_getItem (browser b) (now e) k)"
  by (simp add: enrichEvent_state Let_def getItem_getItem split: sum.splits)

lemma enrichEvent_recent_ids [simp]:
  "snd (getRecentEventIds (fst (enrichEvent b e ed)) (now e)) = snd (getRecentEventIds b (now e))"
  by (simp add: getRecentEventIds_result enrichEvent_reads)

lemma enrichEvent_queue [simp]:
  "snd (getEventQueue (fst (enrichEvent b e ed)) (now e)) = snd (getEventQueue b (now e))"
  by (simp add: getEventQueue_result enrichEvent_reads)

lemma getRecentEventIds_frame [simp]:
  "config (fst (getRecentEventIds b t)) = config b"
  "adapters (fst (getRecentEventIds b t)) = adapters b"
  "listeners (fst (getRecentEventIds b t)) = listeners b"
  "isOnline (fst (getRecentEventIds b t)) = isOnline b"
  "track_calls (fst (getRecentEventIds b t)) = track_calls b"
  "listener_calls (fst (getRecentEventIds b t)) = listener_calls b"
  "isClient (browser (fst (getRecentEventIds b t))) = isClient (browser b)"
  "getItem_throws (browser (fst (getRecentEventIds b t))) = getItem_throws (browser b)"
  "setItem_throws (browser (fst (getRecentEventIds b t))) = setItem_throws (browser b)"
  "snd (getRecentEventIds (fst (getRecentEventIds b t)) t) = snd (getRecentEventIds b t)"
  "snd (getEventQueue (fst (getRecentEventIds b t)) t) = snd (getEventQueue b t)"
  by (simp_all add: getRecentEventIds_state getRecentEventIds_result getEventQueue_result
      getItem_getItem)

lemma notify_from_frame [simp]:
  "config (notify_from i ls ev b) = config b"
  "adapters (notify_from i ls ev b) = adapters b"
  "listeners (notify_from i ls ev b) = listeners b"
  "isOnline (notify_from i ls ev b) = isOnline b"
  "track_calls (notify_from i ls ev b) = track_calls b"
  "browser (notify_from i ls ev b) = browser b"
  by (induction i ls ev b rule: notify_from.induct;
      simp add: console_error_def Let_def split: sum.splits)+

lemma notify_from_calls:
  "listener_calls (notify_from i ls ev b) =
     listener_calls b @ map (\<lambda>k. (k, ev)) [i ..< i + length ls]"
proof (induction i ls ev b rule: notify_from.induct)
  case (1 i ev b)
  then show ?case by simp
next
  case (2 i listener rest ev b)
  have "[i ..< i + Suc (length rest)] = i # [Suc i ..< i + Suc (length rest)]"
    by (rule upt_conv_Cons) simp
  with 2 show ?case
    by (simp add: console_error_def Let_def del: upt_Suc split: sum.splits)
qed

lemma notifyListeners_frame [simp]:
  "config (notifyListeners b ev) = config b"
  "adapters (notifyListeners b ev) = adapters b"
  "listeners (notifyListeners b ev) = listeners b"
  "isOnline (notifyListeners b ev) = isOnline b"
  "track_calls (notifyListeners b ev) = track_calls b"
  "browser (notifyListeners b ev) = browser b"
  by (simp_all add: notifyListeners_def)

lemma track_try_state:
  "track_try b e ed =
     (case snd (enrichEvent b e ed) of
        Inl err \<Rightarrow> (fst (enrichEvent b e ed), Inl err)
      | Inr ev \<Rightarrow>
          if \<not> validateEvent ev then (fst (enrichEvent b e ed), Inl InvalidEventData)
          else
            (let b2 = fst (getRecentEventIds (fst (enrichEvent b e ed)) (now e)) in
             if dedup_id ev \<in> set (snd (getRecentEventIds b (now e)))
             then (b2\<lparr>browser := console_warn DuplicateEvent (browser b2)\<rparr>, Inr ())
             else if isOnline b then processEvent (notifyListeners b2 ev) e ev
             else if enableOfflineQueue (config b)
             then (queueEvent (notifyListeners b2 ev) e ev, Inr ())
             else (notifyListeners b2 ev, Inr ())))"
  by (simp add: track_try_def isDuplicate_def Let_def case_prod_beta
      split: sum.splits bool.splits)

lemma track_frame [simp]:
  "browser (fst (track b e ed)) = browser (fst (track_try b e ed))"
  "track_calls (fst (track b e ed)) = track_calls (fst (track_try b e ed))"
  "listener_calls (fst (track b e ed)) = listener_calls (fst (track_try b e ed))"
  by (simp_all add: track_def console_error_def case_prod_beta split: sum.splits)

lemma track_dispatches:
  assumes "snd (enrichEvent b e ed) = Inr ev" "validateEvent ev"
    "dedup_id ev \<notin> set (snd (getRecentEventIds b (now e)))" "isOnline b"
  shows "fst (track b e ed) =
     markEventProcessed
       (fold (deliver e ev) (adapters b)
          (notifyListeners (fst (getRecentEventIds (fst (enrichEvent b e ed)) (now e))) ev))
       (now e) (dedup_id ev)"
  using assms
  by (simp add: track_def track_try_state Let_def processEvent_def case_prod_beta)

lemma markEventProcessed_appends_until:
  assumes "isClient (browser b)" "\<not> getItem_throws (browser b)" "\<not> setItem_throws (browser b)"
    and "u \<le> t + 3600000"
  shows "snd (getRecentEventIds (markEventProcessed b t d) u) =
           (if length (snd (getRecentEventIds b t)) + 1 > 100
            then tl (snd (getRecentEventIds b t) @ [d])
            else snd (getRecentEventIds b t) @ [d])"
  using assms
  by (subst getRecentEventIds_result)
     (simp add: markEventProcessed_state read_after_write ttl_expiry_def)

lemma marked_id_is_recent:
  assumes "isClient (browser b)" "\<not> getItem_throws (browser b)" "\<not> setItem_throws (browser b)"
    and "u \<le> t + 3600000"
  shows "d \<in> set (snd (getRecentEventIds (markEventProcessed b t d) u))"
proof -
  have "d \<in> set (tl (ids @ [d]))" if "length ids + 1 > 100" for ids :: "string list"
    using that by (cases ids) auto
  then show ?thesis using assms by (simp add: markEventProcessed_appends_until)
qed

lemma track_suppresses_duplicate:
  assumes "snd (enrichEvent b e ed) = Inr ev" "validateEvent ev"
    "dedup_id ev \<in> set (snd (getRecentEventIds b (now e)))"
  shows "track_calls (fst (track b e ed)) = track_calls b"
    and "listener_calls (fst (track b e ed)) = listener_calls b"
    and "snd (getEventQueue (fst (track b e ed)) (now e)) = snd (getEventQueue b (now e))"
    and "snd (getRecentEventIds (fst (track b e ed)) (now e)) = snd (getRecentEventIds b (now e))"
proof -
  let ?b2 = "fst (getRecentEventIds (fst (enrichEvent b e ed)) (now e))"
  have t: "fst (track_try b e ed) = ?b2\<lparr>browser := console_warn DuplicateEvent (browser ?b2)\<rparr>"
    using assms by (simp add: track_try_state Let_def)
  show "track_calls (fst (track b e ed)) = track_calls b"
    and "listener_calls (fst (track b e ed)) = listener_calls b"
    by (simp_all add: t)
  have w: "snd (SafeStorage_getItem (console_warn x br) u k) = snd (SafeStorage_getItem br u k)"
    for x u k and br :: "stored browser"
    by (simp add: SafeStorage_getItem_result console_warn_def)
  have "snd (getEventQueue (fst (track b e ed)) (now e)) = snd (getEventQueue ?b2 (now e))"
    by (simp add: getEventQueue_result t w)
  then show "snd (getEventQueue (fst (track b e ed)) (now e)) = snd (getEventQueue b (now e))"
    by simp
  have "snd (getRecentEventIds (fst (track b e ed)) (now e)) = snd (getRecentEventIds ?b2 (now e))"
    by (simp add: getRecentEventIds_result t w)
  then show "snd (getRecentEventIds (fst (track b e ed)) (now e)) = snd (getRecentEventIds b (now e))"
    by simp
qed

lemma track_keeps_recent_ids:
  assumes "\<not> isOnline b
      \<or> \<not> (\<exists>ev. snd (enrichEvent b e ed) = Inr ev \<and> validateEvent ev
                \<and> dedup_id ev \<notin> set (snd (getRecentEventIds b (now e))))"
  shows "snd (getRecentEventIds (fst (track b e ed)) (now e)) = snd (getRecentEventIds b (now e))"
proof (cases "snd (enrichEvent b e ed)")
  case (Inl err)
  then have "fst (track_try b e ed) = fst (enrichEvent b e ed)"
    by (simp add: track_try_state)
  then show ?thesis by (simp add: getRecentEventIds_result [of "fst (track b e ed)"]
        getRecentEventIds_result [of "fst (enrichEvent b e ed)", symmetric])
next
  case (Inr ev)
  let ?b2 = "fst (getRecentEventIds (fst (enrichEvent b e ed)) (now e))"
  show ?thesis
  proof (cases "validateEvent ev")
    case False
    with Inr have "fst (track_try b e ed) = fst (enrichEvent b e ed)"
      by (simp add: track_try_state)
    then show ?thesis by (simp add: getRecentEventIds_result [of "fst (track b e ed)"]
          getRecentEventIds_result [of "fst (enrichEvent b e ed)", symmetric])
  next
    case True
    show ?thesis
    proof (cases "dedup_id ev \<in> set (snd (getRecentEventIds b (now e)))")
      case dup: True
      from Inr True dup show ?thesis by (rule track_suppresses_duplicate(4))
    next
      case False
      with assms Inr True have off: "\<not> isOnline b" by blast
      have "browser (fst (track_try b e ed)) =
          (if enableOfflineQueue (config b) then browser (queueEvent (notifyListeners ?b2 ev) e ev)
           else browser (notifyListeners ?b2 ev))"
        using Inr True False off by (simp add: track_try_state Let_def)
      then have "snd (getRecentEventIds (fst (track b e ed)) (now e))
          = snd (getRecentEventIds ?b2 (now e))"
        using getRecentEventIds_cong [of "fst (track b e ed)" "queueEvent (notifyListeners ?b2 ev) e ev" "now e"]
          getRecentEventIds_cong [of "fst (track b e ed)" "notifyListeners ?b2 ev" "now e"]
          getRecentEventIds_cong [of "notifyListeners ?b2 ev" ?b2 "now e"]
        by (cases "enableOfflineQueue (config b)") simp_all
      then show ?thesis by simp
    qed
  qed
qed

lemma page_view_dedup_id:
  "generateDedupId e (Some ''visitor_1'') (Some ''page_viewed'') None
     (Some ''2024-01-01T00:00:00.000Z'')
   = ''dmlzaxrvcl8xfhbhz2vfdmlld2vkfg5vx2v4cgvyawvuy2v8mjaync0wms0wmvqwmdowmdowmc4wmdba''"
  unfolding generateDedupId_def join_text_def or_else_def by code_simp

lemma enrich_page_view:
  "snd (enrichEvent b (clock t) page_view) = Inr page_view_event"
  by (simp add: enrichEvent_def generateEventId_def clock_def page_view_def truthy_field_def
      spread_def field_or_def optional_def page_view_dedup_id page_view_event_def
      case_prod_beta)

lemma page_view_event_valid: "validateEvent page_view_event"
  by (simp add: validateEvent_def page_view_event_def truthy_def)

text \<open>
  C4. While the dedup key of a valid event is in the recent buffer, \<^verbatim>\<open>track\<close> completes
  without calling any listener or adapter and without queueing. The key enters the buffer
  only through \<^verbatim>\<open>markEventProcessed\<close>, applied to the state the adapter fan-out leaves, in
  which the buffer still reads as before; when nothing is dispatched (offline, invalid or
  duplicate) the buffer is unchanged. So after a first online \<^verbatim>\<open>track\<close> on a store that
  reads and writes, a second \<^verbatim>\<open>track\<close> producing the same key within the buffer's hour
  adds no listener or adapter call.
\<close>

theorem duplicate_is_suppressed:
  "(snd (enrichEvent b e ed) = Inr ev \<and> validateEvent ev
      \<and> dedup_id ev \<in> set (snd (getRecentEventIds b (now e))) \<longrightarrow>
      snd (track b e ed) = Inr ()
      \<and> track_calls (fst (track b e ed)) = track_calls b
      \<and> listener_calls (fst (track b e ed)) = listener_calls b
      \<and> snd (getEventQueue (fst (track b e ed)) (now e)) = snd (getEventQueue b (now e)))
   \<and> (snd (enrichEvent b e ed) = Inr ev \<and> validateEvent ev
      \<and> dedup_id ev \<notin> set (snd (getRecentEventIds b (now e))) \<and> isOnline b \<longrightarrow>
      (\<exists>b3. fst (track b e ed)
               = markEventProcessed (fold (deliver e ev) (adapters b) b3) (now e) (dedup_id ev)
            \<and> snd (getRecentEventIds (fold (deliver e ev) (adapters b) b3) (now e))
               = snd (getRecentEventIds b (now e))))
   \<and> (\<not> isOnline b
        \<or> \<not> (\<exists>ev'. snd (enrichEvent b e ed) = Inr ev' \<and> validateEvent ev'
                  \<and> dedup_id ev' \<notin> set (snd (getRecentEventIds b (now e)))) \<longrightarrow>
      snd (getRecentEventIds (fst (track b e ed)) (now e)) = snd (getRecentEventIds b (now e)))
   \<and> (isClient (browser b) \<and> \<not> getItem_throws (browser b) \<and> \<not> setItem_throws (browser b)
      \<and> isOnline b \<and> snd (enrichEvent b e ed) = Inr ev \<and> validateEvent ev
      \<and> dedup_id ev \<notin> set (snd (getRecentEventIds b (now e)))
      \<and> snd (enrichEvent (fst (track b e ed)) e2 ed2) = Inr ev2 \<and> validateEvent ev2
      \<and> dedup_id ev2 = dedup_id ev \<and> now e2 \<le> now e + 3600000 \<longrightarrow>
      track_calls (fst (track (fst (track b e ed)) e2 ed2)) = track_calls (fst (track b e ed))
      \<and> listener_calls (fst (track (fst (track b e ed)) e2 ed2))
          = listener_calls (fst (track b e ed)))"
proof (intro conjI impI)
  assume a: "snd (enrichEvent b e ed) = Inr ev \<and> validateEvent ev
      \<and> dedup_id ev \<in> set (snd (getRecentEventIds b (now e)))"
  show "snd (track b e ed) = Inr ()"
    by (simp add: track_def split: prod.splits sum.splits)
  from a show "track_calls (fst (track b e ed)) = track_calls b"
    using track_suppresses_duplicate(1) by blast
  from a show "listener_calls (fst (track b e ed)) = listener_calls b"
    using track_suppresses_duplicate(2) by blast
  from a show "snd (getEventQueue (fst (track b e ed)) (now e)) = snd (getEventQueue b (now e))"
    using track_suppresses_duplicate(3) by blast
next
  assume a: "snd (enrichEvent b e ed) = Inr ev \<and> validateEvent ev
      \<and> dedup_id ev \<notin> set (snd (getRecentEventIds b (now e))) \<and> isOnline b"
  let ?b3 = "notifyListeners (fst (getRecentEventIds (fst (enrichEvent b e ed)) (now e))) ev"
  have "fst (track b e ed)
      = markEventProcessed (fold (deliver e ev) (adapters b) ?b3) (now e) (dedup_id ev)"
    using a by (simp add: track_dispatches)
  moreover have "snd (getRecentEventIds ?b3 (now e)) = snd (getRecentEventIds b (now e))"
    using getRecentEventIds_cong [of ?b3 "fst (getRecentEventIds (fst (enrichEvent b e ed)) (now e))" "now e"]
    by simp
  then have "snd (getRecentEventIds (fold (deliver e ev) (adapters b) ?b3) (now e))
      = snd (getRecentEventIds b (now e))"
    by simp
  ultimately show "\<exists>b3. fst (track b e ed)
               = markEventProcessed (fold (deliver e ev) (adapters b) b3) (now e) (dedup_id ev)
            \<and> snd (getRecentEventIds (fold (deliver e ev) (adapters b) b3) (now e))
               = snd (getRecentEventIds b (now e))"
    by blast
next
  assume "\<not> isOnline b
        \<or> \<not> (\<exists>ev'. snd (enrichEvent b e ed) = Inr ev' \<and> validateEvent ev'
                  \<and> dedup_id ev' \<notin> set (snd (getRecentEventIds b (now e))))"
  then show "snd (getRecentEventIds (fst (track b e ed)) (now e)) = snd (getRecentEventIds b (now e))"
    by (rule track_keeps_recent_ids)
next
  assume a: "isClient (browser b) \<and> \<not> getItem_throws (browser b) \<and> \<not> setItem_throws (browser b)
      \<and> isOnline b \<and> snd (enrichEvent b e ed) = Inr ev \<and> validateEvent ev
      \<and> dedup_id ev \<notin> set (snd (getRecentEventIds b (now e)))
      \<and> snd (enrichEvent (fst (track b e ed)) e2 ed2) = Inr ev2 \<and> validateEvent ev2
      \<and> dedup_id ev2 = dedup_id ev \<and> now e2 \<le> now e + 3600000"
  let ?b3 = "notifyListeners (fst (getRecentEventIds (fst (enrichEvent b e ed)) (now e))) ev"
  let ?d = "fold (deliver e ev) (adapters b) ?b3"
  have first: "fst (track b e ed) = markEventProcessed ?d (now e) (dedup_id ev)"
    using a by (simp add: track_dispatches)
  have "isClient (browser ?d)" "\<not> getItem_throws (browser ?d)" "\<not> setItem_throws (browser ?d)"
    using a by simp_all
  then have "dedup_id ev \<in> set (snd (getRecentEventIds (markEventProcessed ?d (now e) (dedup_id ev))
      (now e2)))"
    using a by (intro marked_id_is_recent) simp_all
  then have dup: "dedup_id ev2 \<in> set (snd (getRecentEventIds (fst (track b e ed)) (now e2)))"
    using a by (simp only: first)
  from a have e2: "snd (enrichEvent (fst (track b e ed)) e2 ed2) = Inr ev2" and v2: "validateEvent ev2"
    by blast+
  show "track_calls (fst (track (fst (track b e ed)) e2 ed2)) = track_calls (fst (track b e ed))"
    using e2 v2 dup by (rule track_suppresses_duplicate(1))
  show "listener_calls (fst (track (fst (track b e ed)) e2 ed2))
          = listener_calls (fst (track b e ed))"
    using e2 v2 dup by (rule track_suppresses_duplicate(2))
qed

theorem duplicate_is_suppressed_witness:
  "snd (enrichEvent one_adapter_bus (clock 5) page_view) = Inr page_view_event
   \<and> validateEvent page_view_event
   \<and> dedup_id page_view_event \<notin> set (snd (getRecentEventIds one_adapter_bus 5))
   \<and> track_calls (fst (track one_adapter_bus (clock 5) page_view))
       = [(''mock-adapter'', page_view_event)]
   \<and> listener_calls (fst (track one_adapter_bus (clock 5) page_view)) = [(0, page_view_event)]
   \<and> snd (enrichEvent (fst (track one_adapter_bus (clock 5) page_view)) (clock 9) page_view)
       = Inr page_view_event
   \<and> track_calls (fst (track (fst (track one_adapter_bus (clock 5) page_view)) (clock 9) page_view))
       = [(''mock-adapter'', page_view_event)]
   \<and> listener_calls (fst (track (fst (track one_adapter_bus (clock 5) page_view)) (clock 9) page_view))
       = [(0, page_view_event)]"
proof -
  let ?b = one_adapter_bus
  let ?b1 = "fst (track ?b (clock 5) page_view)"
  have t: "now (clock t) = t" for t by (simp add: clock_def)
  have fl: "isClient (browser ?b)" "\<not> getItem_throws (browser ?b)" "\<not> setItem_throws (browser ?b)"
    "isOnline ?b"
    and ads: "adapters ?b = [mock_adapter ''mock-adapter'' (Inr ())]"
    and ls: "listeners ?b = [\<lambda>ev. Inr ()]"
    and logs: "track_calls ?b = []" "listener_calls ?b = []"
    and ids: "snd (getRecentEventIds ?b 5) = []"
    by (simp_all add: one_adapter_bus_def fresh_bus_def working_browser_def
        getRecentEventIds_result SafeStorage_getItem_result)
  have fresh: "dedup_id page_view_event \<notin> set (snd (getRecentEventIds ?b (now (clock 5))))"
    by (simp add: t ids)
  have gr: "granted page_view_event (mock_adapter ''mock-adapter'' (Inr ()))"
    by (simp add: granted_def mock_adapter_def)
  have nm: "name (mock_adapter ''mock-adapter'' (Inr ())) = ''mock-adapter''"
    by (simp add: mock_adapter_def)
  have first: "?b1 = markEventProcessed
       (fold (deliver (clock 5) page_view_event) (adapters ?b)
          (notifyListeners (fst (getRecentEventIds (fst (enrichEvent ?b (clock 5) page_view))
             (now (clock 5)))) page_view_event))
       (now (clock 5)) (dedup_id page_view_event)"
    using enrich_page_view page_view_event_valid fresh fl(4) by (rule track_dispatches)
  have c1: "track_calls ?b1 = [(''mock-adapter'', page_view_event)]"
    by (simp only: first markEventProcessed_frame fold_deliver_track_calls)
       (simp add: ads gr nm logs)
  have c2: "listener_calls ?b1 = [(0, page_view_event)]"
    by (simp only: first markEventProcessed_frame fold_deliver_frame)
       (simp add: notifyListeners_def notify_from_calls ls logs)
  note T = duplicate_is_suppressed [of ?b "clock 5" page_view page_view_event "clock 9"
      page_view page_view_event]
  have near: "now (clock 9) \<le> now (clock 5) + 3600000" by (simp add: t)
  from T fl enrich_page_view page_view_event_valid fresh near
  have "track_calls (fst (track ?b1 (clock 9) page_view)) = track_calls ?b1
      \<and> listener_calls (fst (track ?b1 (clock 9) page_view)) = listener_calls ?b1"
    by blast
  with c1 c2 have c3: "track_calls (fst (track ?b1 (clock 9) page_view))
       = [(''mock-adapter'', page_view_event)]"
    and c4: "listener_calls (fst (track ?b1 (clock 9) page_view)) = [(0, page_view_event)]"
    by simp_all
  have fresh5: "dedup_id page_view_event \<notin> set (snd (getRecentEventIds ?b 5))"
    by (simp add: ids)
  from enrich_page_view [of ?b 5] page_view_event_valid fresh5 c1 c2
    enrich_page_view [of ?b1 9] c3 c4
  show ?thesis by blast
qed

section \<open>Properties of validation\<close>

lemma stored_id_truthy: "snd (stored_id b t k) \<noteq> []"
  by (simp add: stored_id_def split: prod.splits option.splits stored.splits)

lemma enrichEvent_sentry [simp]: "sentry (fst (enrichEvent b e ed)) = sentry b"
  "console_errors (fst (enrichEvent b e ed)) = console_errors b"
  by (simp_all add: enrichEvent_state)

lemma track_drops:
  assumes "case snd (enrichEvent b e ed) of Inl err \<Rightarrow> True | Inr ev \<Rightarrow> \<not> validateEvent ev"
  shows "track_calls (fst (track b e ed)) = track_calls b"
    and "listener_calls (fst (track b e ed)) = listener_calls b"
    and "snd (getEventQueue (fst (track b e ed)) (now e)) = snd (getEventQueue b (now e))"
    and "length (sentry (fst (track b e ed))) = length (sentry b) + 1"
proof -
  have t: "fst (track_try b e ed) = fst (enrichEvent b e ed)"
    and r: "isl (snd (track_try b e ed))"
    using assms by (auto simp: track_try_state split: sum.splits)
  show "track_calls (fst (track b e ed)) = track_calls b"
    and "listener_calls (fst (track b e ed)) = listener_calls b"
    by (simp_all add: t)
  have "browser (fst (track b e ed)) = browser (fst (enrichEvent b e ed))"
    by (simp add: t)
  then have "snd (getEventQueue (fst (track b e ed)) (now e))
      = snd (getEventQueue (fst (enrichEvent b e ed)) (now e))"
    by (rule getEventQueue_cong)
  then show "snd (getEventQueue (fst (track b e ed)) (now e)) = snd (getEventQueue b (now e))"
    by simp
  from r obtain err where "snd (track_try b e ed) = Inl err" by (cases "snd (track_try b e ed)") auto
  then show "length (sentry (fst (track b e ed))) = length (sentry b) + 1"
    using t by (cases "track_try b e ed") (simp add: track_def console_error_def)
qed

lemma supplied_empty_invalid:
  assumes "supplied_empty (p_event_id ed) \<or> supplied_empty (p_action ed)
      \<or> supplied_empty (p_visitor_id ed) \<or> supplied_empty (p_session_id ed)"
  shows "case snd (enrichEvent b e ed) of Inl err \<Rightarrow> True | Inr ev \<Rightarrow> \<not> validateEvent ev"
  using assms
  by (auto simp: enrichEvent_def supplied_empty_def validateEvent_def truthy_def spread_def
      Let_def case_prod_beta split: sum.splits)

lemma absent_ids_filled:
  assumes "snd (enrichEvent b e ed) = Inr ev"
    and "\<not> supplied_empty (p_visitor_id ed)" "\<not> supplied_empty (p_session_id ed)"
  shows "truthy (visitor_id ev)" "truthy (session_id ev)"
proof -
  have f: "\<not> supplied_empty x \<Longrightarrow> d \<noteq> [] \<or> truthy_field x \<Longrightarrow> truthy (spread x (field_or x d))"
    for x d
    by (cases x) (auto simp: supplied_empty_def truthy_def spread_def field_or_def truthy_field_def)
  from assms show "truthy (visitor_id ev)" "truthy (session_id ev)"
    by (auto simp: enrichEvent_def Let_def case_prod_beta getVisitorId_def getSessionId_def
        stored_id_truthy intro!: f split: sum.splits if_splits)
qed

text \<open>
  An absent \<^verbatim>\<open>action\<close> is filled too, with \<^verbatim>\<open>'unknown'\<close>, so \<^verbatim>\<open>track({})\<close> passes validation
  and is dispatched, although the test \<^verbatim>\<open>should handle invalid events\<close> expects no adapter
  call for it.
\<close>

lemma absent_action_is_unknown:
  "snd (enrichEvent b e ed) = Inr ev \<Longrightarrow> p_action ed = Absent \<Longrightarrow> action ev = Some ''unknown''"
  by (auto simp: enrichEvent_def Let_def case_prod_beta spread_def field_or_def
      split: sum.splits)

lemma button_click_dedup_id:
  "generateDedupId e (Some ''unknown'') (Some ''button_clicked'') None
     (Some ''2024-01-01T00:00:00.000Z'')
   = ''dw5rbm93bnxidxr0b25fy2xpy2tlzhxub19lehblcmllbmnlfdiwmjqtmdetmdfumda6mda6mdaumdawwg''"
  unfolding generateDedupId_def join_text_def or_else_def by code_simp

lemma enrich_button_click:
  "snd (enrichEvent one_adapter_bus (clock t) button_click) = Inr button_click_event"
  by (simp add: enrichEvent_def generateEventId_def clock_def button_click_def truthy_field_def
      spread_def field_or_def optional_def button_click_dedup_id button_click_event_def
      case_prod_beta getVisitorId_def getSessionId_def stored_id_def getDefaultConsent_def
      SafeStorage_getItem_def getItem_try_def localStorage_getItem_def one_adapter_bus_def
      fresh_bus_def working_browser_def)

lemma button_click_event_valid: "validateEvent button_click_event"
  by (simp add: validateEvent_def button_click_event_def truthy_def)

text \<open>
  C2, as stated, fails for a partial event that lacks \<^verbatim>\<open>visitor_id\<close> and
  \<^verbatim>\<open>session_id\<close>: enrichment fills both (here with \<^verbatim>\<open>'unknown'\<close>), validation passes and
  the adapter is called. The test suite expects the same
  (\<^verbatim>\<open>should enrich events with default values\<close>).
\<close>

theorem missing_ids_counterexample:
  "p_visitor_id button_click = Absent \<and> p_session_id button_click = Absent
   \<and> snd (track one_adapter_bus (clock 5) button_click) = Inr ()
   \<and> track_calls one_adapter_bus = []
   \<and> track_calls (fst (track one_adapter_bus (clock 5) button_click))
       = [(''mock-adapter'', button_click_event)]"
proof -
  let ?b = one_adapter_bus
  have t: "now (clock t) = t" for t by (simp add: clock_def)
  have on: "isOnline ?b"
    and ads: "adapters ?b = [mock_adapter ''mock-adapter'' (Inr ())]"
    and logs: "track_calls ?b = []"
    and ids: "snd (getRecentEventIds ?b 5) = []"
    by (simp_all add: one_adapter_bus_def fresh_bus_def working_browser_def
        getRecentEventIds_result SafeStorage_getItem_result)
  have fresh: "dedup_id button_click_event \<notin> set (snd (getRecentEventIds ?b (now (clock 5))))"
    by (simp add: t ids)
  have gr: "granted button_click_event (mock_adapter ''mock-adapter'' (Inr ()))"
    by (simp add: granted_def mock_adapter_def)
  have nm: "name (mock_adapter ''mock-adapter'' (Inr ())) = ''mock-adapter''"
    by (simp add: mock_adapter_def)
  have first: "fst (track ?b (clock 5) button_click) = markEventProcessed
       (fold (deliver (clock 5) button_click_event) (adapters ?b)
          (notifyListeners (fst (getRecentEventIds (fst (enrichEvent ?b (clock 5) button_click))
             (now (clock 5)))) button_click_event))
       (now (clock 5)) (dedup_id button_click_event)"
    using enrich_button_click button_click_event_valid fresh on by (rule track_dispatches)
  have c1: "track_calls (fst (track ?b (clock 5) button_click))
      = [(''mock-adapter'', button_click_event)]"
    by (simp only: first markEventProcessed_frame fold_deliver_track_calls)
       (simp add: ads gr nm logs)
  have r: "snd (track ?b (clock 5) button_click) = Inr ()"
    by (simp add: track_def split: prod.splits sum.splits)
  show ?thesis using c1 r logs by (simp add: button_click_def)
qed

text \<open>
  C2, amended. \<^verbatim>\<open>track\<close> completes normally for every partial event. When enrichment
  fails or the enriched event does not validate, the event is dropped before dispatch:
  no listener and no adapter is called, nothing is queued, and one error goes to the error
  tracker. That is the case whenever the caller supplies \<^verbatim>\<open>event_id\<close>, \<^verbatim>\<open>action\<close>,
  \<^verbatim>\<open>visitor_id\<close> or \<^verbatim>\<open>session_id\<close> as \<^verbatim>\<open>undefined\<close> or the empty string. A
  \<^verbatim>\<open>visitor_id\<close> or \<^verbatim>\<open>session_id\<close> that is absent is filled by enrichment and does not
  fail validation.
\<close>

theorem invalid_event_is_dropped:
  "snd (track b e ed) = Inr ()
   \<and> ((case snd (enrichEvent b e ed) of Inl err \<Rightarrow> True | Inr ev' \<Rightarrow> \<not> validateEvent ev') \<longrightarrow>
        track_calls (fst (track b e ed)) = track_calls b
        \<and> listener_calls (fst (track b e ed)) = listener_calls b
        \<and> snd (getEventQueue (fst (track b e ed)) (now e)) = snd (getEventQueue b (now e))
        \<and> length (sentry (fst (track b e ed))) = length (sentry b) + 1)
   \<and> (supplied_empty (p_event_id ed) \<or> supplied_empty (p_action ed)
        \<or> supplied_empty (p_visitor_id ed) \<or> supplied_empty (p_session_id ed) \<longrightarrow>
        (case snd (enrichEvent b e ed) of Inl err \<Rightarrow> True | Inr ev' \<Rightarrow> \<not> validateEvent ev'))
   \<and> (snd (enrichEvent b e ed) = Inr ev \<and> \<not> supplied_empty (p_visitor_id ed)
        \<and> \<not> supplied_empty (p_session_id ed) \<longrightarrow>
        truthy (visitor_id ev) \<and> truthy (session_id ev))"
proof (intro conjI impI)
  show "snd (track b e ed) = Inr ()"
    by (simp add: track_def split: prod.splits sum.splits)
next
  assume a: "case snd (enrichEvent b e ed) of Inl err \<Rightarrow> True | Inr ev' \<Rightarrow> \<not> validateEvent ev'"
  from a show "track_calls (fst (track b e ed)) = track_calls b" by (rule track_drops(1))
  from a show "listener_calls (fst (track b e ed)) = listener_calls b" by (rule track_drops(2))
  from a show "snd (getEventQueue (fst (track b e ed)) (now e)) = snd (getEventQueue b (now e))"
    by (rule track_drops(3))
  from a show "length (sentry (fst (track b e ed))) = length (sentry b) + 1"
    by (rule track_drops(4))
next
  assume "supplied_empty (p_event_id ed) \<or> supplied_empty (p_action ed)
        \<or> supplied_empty (p_visitor_id ed) \<or> supplied_empty (p_session_id ed)"
  then show "case snd (enrichEvent b e ed) of Inl err \<Rightarrow> True | Inr ev' \<Rightarrow> \<not> validateEvent ev'"
    by (rule supplied_empty_invalid)
next
  assume a: "snd (enrichEvent b e ed) = Inr ev \<and> \<not> supplied_empty (p_visitor_id ed)
        \<and> \<not> supplied_empty (p_session_id ed)"
  then show "truthy (visitor_id ev)" using absent_ids_filled(1) by blast
  from a show "truthy (session_id ev)" using absent_ids_filled(2) by blast
qed

theorem invalid_event_is_dropped_witness:
  "supplied_empty (p_action (page_view\<lparr>p_action := Given []\<rparr>))
   \<and> snd (track one_adapter_bus (clock 5) (page_view\<lparr>p_action := Given []\<rparr>)) = Inr ()
   \<and> track_calls (fst (track one_adapter_bus (clock 5) (page_view\<lparr>p_action := Given []\<rparr>))) = []
   \<and> listener_calls (fst (track one_adapter_bus (clock 5) (page_view\<lparr>p_action := Given []\<rparr>))) = []
   \<and> snd (getEventQueue (fst (track one_adapter_bus (clock 5) (page_view\<lparr>p_action := Given []\<rparr>))) 5)
       = []
   \<and> length (sentry (fst (track one_adapter_bus (clock 5) (page_view\<lparr>p_action := Given []\<rparr>)))) = 1
   \<and> snd (enrichEvent one_adapter_bus (clock 5) button_click) = Inr button_click_event
   \<and> truthy (visitor_id button_click_event) \<and> truthy (session_id button_click_event)"
proof -
  let ?b = one_adapter_bus
  let ?ed = "page_view\<lparr>p_action := Given []\<rparr>"
  have t: "now (clock t) = t" for t by (simp add: clock_def)
  have se: "supplied_empty (p_action ?ed)" by (simp add: supplied_empty_def)
  have logs: "track_calls ?b = []" "listener_calls ?b = []" "sentry ?b = []"
    and q: "snd (getEventQueue ?b 5) = []"
    by (simp_all add: one_adapter_bus_def fresh_bus_def working_browser_def
        getEventQueue_result SafeStorage_getItem_result)
  note T = invalid_event_is_dropped [of ?b "clock 5" ?ed button_click_event]
  from T se have inv:
    "case snd (enrichEvent ?b (clock 5) ?ed) of Inl err \<Rightarrow> True | Inr ev' \<Rightarrow> \<not> validateEvent ev'"
    by blast
  from T inv have "track_calls (fst (track ?b (clock 5) ?ed)) = track_calls ?b
        \<and> listener_calls (fst (track ?b (clock 5) ?ed)) = listener_calls ?b
        \<and> snd (getEventQueue (fst (track ?b (clock 5) ?ed)) (now (clock 5)))
            = snd (getEventQueue ?b (now (clock 5)))
        \<and> length (sentry (fst (track ?b (clock 5) ?ed))) = length (sentry ?b) + 1"
    by blast
  then have c: "track_calls (fst (track ?b (clock 5) ?ed)) = []"
    "listener_calls (fst (track ?b (clock 5) ?ed)) = []"
    "snd (getEventQueue (fst (track ?b (clock 5) ?ed)) 5) = []"
    "length (sentry (fst (track ?b (clock 5) ?ed))) = 1"
    by (simp_all add: logs q t)
  from T have r: "snd (track ?b (clock 5) ?ed) = Inr ()" by blast
  have ne: "\<not> supplied_empty (p_visitor_id button_click)"
    "\<not> supplied_empty (p_session_id button_click)"
    by (simp_all add: supplied_empty_def button_click_def)
  from invalid_event_is_dropped [of ?b "clock 5" button_click button_click_event]
    enrich_button_click [of 5] ne
  have f: "truthy (visitor_id button_click_event) \<and> truthy (session_id button_click_event)"
    by blast
  from se r c enrich_button_click [of 5] f show ?thesis by blast
qed

section \<open>Properties of the cross-domain store\<close>

lemma map_of_filter_update_other:
  "k' \<noteq> k \<Longrightarrow>
   map_of (filter (\<lambda>(a, c). Q c) (AList.update k v al)) k' = map_of (filter (\<lambda>(a, c). Q c) al) k'"
  by (induction al) auto

lemma map_of_filter_delete_other:
  "k' \<noteq> k \<Longrightarrow>
   map_of (filter (\<lambda>(a, c). Q c) (AList.delete k al)) k' = map_of (filter (\<lambda>(a, c). Q c) al) k'"
  by (induction al) auto

lemma console_warn_frame [simp]:
  "isClient (console_warn x b) = isClient b"
  "localStorage (console_warn x b) = localStorage b"
  "getItem_throws (console_warn x b) = getItem_throws b"
  "setItem_throws (console_warn x b) = setItem_throws b"
  "removeItem_throws (console_warn x b) = removeItem_throws b"
  "has_document (console_warn x b) = has_document b"
  "cookie_jar (console_warn x b) = cookie_jar b"
  "cookie_get_throws (console_warn x b) = cookie_get_throws b"
  "cookie_set_throws (console_warn x b) = cookie_set_throws b"
  by (simp_all add: console_warn_def)


lemma SafeStorage_getItem_cong:
  "isClient b' = isClient b \<Longrightarrow> getItem_throws b' = getItem_throws b \<Longrightarrow>
   localStorage b' = localStorage b \<Longrightarrow>
   snd (SafeStorage_getItem b' u k) = snd (SafeStorage_getItem b u k)"
  by (simp add: SafeStorage_getItem_result)

lemma CrossDomainStorage_getItem_result:
  "snd (CrossDomainStorage_getItem b u k) =
     (case snd (SafeStorage_getItem b u k) of
        Some v \<Rightarrow> Some v
      | None \<Rightarrow>
          if has_document b
          then (case cookie_read_try b u k of Inr r \<Rightarrow> r | Inl err \<Rightarrow> None)
          else None)"
proof (cases "snd (SafeStorage_getItem b u k)")
  case None
  then show ?thesis by (simp add: CrossDomainStorage_getItem_fallback)
next
  case (Some v)
  then show ?thesis
    by (cases "SafeStorage_getItem b u k") (simp add: CrossDomainStorage_getItem_def)
qed

lemma CrossDomainStorage_getItem_frame [simp]:
  "isClient (fst (CrossDomainStorage_getItem b u k)) = isClient b"
  "getItem_throws (fst (CrossDomainStorage_getItem b u k)) = getItem_throws b"
  "setItem_throws (fst (CrossDomainStorage_getItem b u k)) = setItem_throws b"
  "removeItem_throws (fst (CrossDomainStorage_getItem b u k)) = removeItem_throws b"
  "has_document (fst (CrossDomainStorage_getItem b u k)) = has_document b"
  "cookie_jar (fst (CrossDomainStorage_getItem b u k)) = cookie_jar b"
  "cookie_get_throws (fst (CrossDomainStorage_getItem b u k)) = cookie_get_throws b"
  "cookie_set_throws (fst (CrossDomainStorage_getItem b u k)) = cookie_set_throws b"
  "localStorage (fst (CrossDomainStorage_getItem b u k))
     = localStorage (fst (SafeStorage_getItem b u k))"
  by (simp_all add: CrossDomainStorage_getItem_def case_prod_beta
      split: option.splits sum.splits)

lemma CrossDomainStorage_setItem_frame [simp]:
  "isClient (CrossDomainStorage_setItem b t k v ttl x) = isClient b"
  "getItem_throws (CrossDomainStorage_setItem b t k v ttl x) = getItem_throws b"
  "setItem_throws (CrossDomainStorage_setItem b t k v ttl x) = setItem_throws b"
  "removeItem_throws (CrossDomainStorage_setItem b t k v ttl x) = removeItem_throws b"
  "has_document (CrossDomainStorage_setItem b t k v ttl x) = has_document b"
  "cookie_get_throws (CrossDomainStorage_setItem b t k v ttl x) = cookie_get_throws b"
  "cookie_set_throws (CrossDomainStorage_setItem b t k v ttl x) = cookie_set_throws b"
  "localStorage (CrossDomainStorage_setItem b t k v ttl x)
     = localStorage (SafeStorage_setItem b t k v ttl)"
  by (simp_all add: CrossDomainStorage_setItem_def Let_def set_document_cookie_def
      split: sum.splits)

lemma CrossDomainStorage_setItem_cookie_other:
  "k' \<noteq> k \<Longrightarrow>
   cookie_read_try (CrossDomainStorage_setItem b t k v ttl x) u k' = cookie_read_try b u k'"
  by (simp add: CrossDomainStorage_setItem_def Let_def set_document_cookie_def
      cookie_read_try_def document_cookie_def map_of_filter_update_other
      map_of_filter_delete_other)

lemma CrossDomain_read_other_key:
  "k' \<noteq> k \<Longrightarrow>
   snd (CrossDomainStorage_getItem (CrossDomainStorage_setItem b t k v ttl x) u k')
     = snd (CrossDomainStorage_getItem b u k')"
proof -
  assume ne: "k' \<noteq> k"
  have "snd (SafeStorage_getItem (CrossDomainStorage_setItem b t k v ttl x) u k')
      = snd (SafeStorage_getItem (SafeStorage_setItem b t k v ttl) u k')"
    by (rule SafeStorage_getItem_cong) simp_all
  also have "\<dots> = snd (SafeStorage_getItem b u k')" using ne by (rule setItem_other_key)
  finally show ?thesis
    using ne by (simp add: CrossDomainStorage_getItem_result CrossDomainStorage_setItem_cookie_other
        split: option.splits)
qed



section \<open>Properties of the attribution tracker\<close>

lemma storage_keys_distinct [simp]:
  "FIRST_TOUCH \<noteq> LAST_TOUCH" "LAST_TOUCH \<noteq> FIRST_TOUCH"
  "FIRST_TOUCH \<noteq> CLICK_IDS" "CLICK_IDS \<noteq> FIRST_TOUCH"
  "LAST_TOUCH \<noteq> CLICK_IDS" "CLICK_IDS \<noteq> LAST_TOUCH"
  by (simp_all add: FIRST_TOUCH_def LAST_TOUCH_def CLICK_IDS_def)

lemma processCurrentVisit_state:
  "processCurrentVisit cfg b p e =
     CrossDomainStorage_setItem (after_first_touch cfg b p e) (now e) LAST_TOUCH
       (Attr (visit_attribution p e)) (Some (attributionWindowDays cfg * 24))
       (enableCrossDomain cfg)"
  by (simp add: processCurrentVisit_def after_first_touch_def after_click_ids_def Let_def
      case_prod_beta)

lemma after_click_ids_frame [simp]:
  "isClient (after_click_ids cfg b p e) = isClient b"
  "getItem_throws (after_click_ids cfg b p e) = getItem_throws b"
  "setItem_throws (after_click_ids cfg b p e) = setItem_throws b"
  by (simp_all add: after_click_ids_def)

lemma after_click_ids_first_touch [simp]:
  "snd (getFirstTouchAttribution (after_click_ids cfg b p e) u)
     = snd (getFirstTouchAttribution b u)"
  by (simp add: after_click_ids_def getFirstTouchAttribution_def CrossDomain_read_other_key)

lemma after_first_touch_frame [simp]:
  "isClient (after_first_touch cfg b p e) = isClient b"
  "getItem_throws (after_first_touch cfg b p e) = getItem_throws b"
  "setItem_throws (after_first_touch cfg b p e) = setItem_throws b"
  by (simp_all add: after_first_touch_def getFirstTouchAttribution_def Let_def)





lemma processCurrentVisit_frame [simp]:
  "isClient (processCurrentVisit cfg b p e) = isClient b"
  "getItem_throws (processCurrentVisit cfg b p e) = getItem_throws b"
  "setItem_throws (processCurrentVisit cfg b p e) = setItem_throws b"
  by (simp_all add: processCurrentVisit_state)





section \<open>Properties of visit classification\<close>










lemma platform_domain_class_all:
  "\<forall>(q, l) \<in> set platform_domains. l \<in> set search_engines \<or> l \<in> set social_networks"
  by (simp add: platform_domains_def search_engines_def social_networks_def)















text \<open>
  The second branch above is stated for referrer hosts that are a listed domain or hold
  none. \<^verbatim>\<open>getSourceFromReferrer\<close> tests with \<^verbatim>\<open>includes\<close>, so a host that holds a listed
  domain inside another name is matched as well: \<^verbatim>\<open>netflix.com\<close> holds \<^verbatim>\<open>x.com\<close>.
\<close>

lemma includes_matches_inside_a_name:
  "getSourceFromReferrer
     \<lparr>location_search = [], location_hostname = ''site.example'',
      document_referrer = ''https://netflix.com/browse'',
      referrer_hostname = Inr ''netflix.com''\<rparr> = ''twitter''"
  unfolding getSourceFromReferrer_def by code_simp

end
